theory Spec2Isabelle
  imports Complex_Main
begin

section \<open>JavaScript numbers\<close>

text \<open>
  A JavaScript Number is modelled as an exact real number, or one of the three
  non-finite values \<open>Infinity\<close>, \<open>-Infinity\<close> and \<open>NaN\<close>. Rounding and the sign of
  zero are not modelled: arithmetic on finite values is exact, and a division of a
  non-zero finite value by zero yields the infinity of the dividend's sign (the divisor
  is read as \<open>+0\<close>). Everything else follows IEEE 754 as ECMAScript prescribes it.
  The one place where the rounding to a double is modelled is \<open>toFixed\<close>, whose
  decimal digits show it: the number it prints is the double nearest to the exact value
  (\<open>toDouble\<close>).
\<close>

datatype jsnum = Fin real | PInf | NInf | NaN

fun isFinite :: "jsnum \<Rightarrow> bool" where
  "isFinite (Fin a) = True"
| "isFinite PInf = False"
| "isFinite NInf = False"
| "isFinite NaN = False"

fun re :: "jsnum \<Rightarrow> real" where
  "re (Fin a) = a"
| "re PInf = 0"
| "re NInf = 0"
| "re NaN = 0"

fun jsign :: "jsnum \<Rightarrow> int" where
  "jsign (Fin a) = (if a < 0 then - 1 else if a = 0 then 0 else 1)"
| "jsign PInf = 1"
| "jsign NInf = - 1"
| "jsign NaN = 0"

instantiation jsnum :: "{plus,minus,uminus,times,inverse,abs}"
begin

fun plus_jsnum :: "jsnum \<Rightarrow> jsnum \<Rightarrow> jsnum" where
  "plus_jsnum NaN b = NaN"
| "plus_jsnum a NaN = NaN"
| "plus_jsnum (Fin a) (Fin b) = Fin (a + b)"
| "plus_jsnum PInf NInf = NaN"
| "plus_jsnum NInf PInf = NaN"
| "plus_jsnum PInf b = PInf"
| "plus_jsnum a PInf = PInf"
| "plus_jsnum NInf b = NInf"
| "plus_jsnum a NInf = NInf"

fun uminus_jsnum :: "jsnum \<Rightarrow> jsnum" where
  "uminus_jsnum (Fin a) = Fin (- a)"
| "uminus_jsnum PInf = NInf"
| "uminus_jsnum NInf = PInf"
| "uminus_jsnum NaN = NaN"

definition minus_jsnum :: "jsnum \<Rightarrow> jsnum \<Rightarrow> jsnum" where
  "minus_jsnum a b = a + (- b)"

fun times_jsnum :: "jsnum \<Rightarrow> jsnum \<Rightarrow> jsnum" where
  "times_jsnum NaN b = NaN"
| "times_jsnum a NaN = NaN"
| "times_jsnum (Fin a) (Fin b) = Fin (a * b)"
| "times_jsnum a b =
     (if jsign a * jsign b = 0 then NaN else if jsign a * jsign b > 0 then PInf else NInf)"

fun divide_jsnum :: "jsnum \<Rightarrow> jsnum \<Rightarrow> jsnum" where
  "divide_jsnum NaN b = NaN"
| "divide_jsnum a NaN = NaN"
| "divide_jsnum (Fin a) (Fin b) =
     (if b = 0 then (if a = 0 then NaN else if a > 0 then PInf else NInf)
      else Fin (a / b))"
| "divide_jsnum (Fin a) b = Fin 0"
| "divide_jsnum a (Fin b) = (if jsign a * (if b < 0 then - 1 else 1) > 0 then PInf else NInf)"
| "divide_jsnum a b = NaN"

definition inverse_jsnum :: "jsnum \<Rightarrow> jsnum" where
  "inverse_jsnum a = divide (Fin 1) a"

fun abs_jsnum :: "jsnum \<Rightarrow> jsnum" where
  "abs_jsnum (Fin a) = Fin \<bar>a\<bar>"
| "abs_jsnum PInf = PInf"
| "abs_jsnum NInf = PInf"
| "abs_jsnum NaN = NaN"

instance ..

end

text \<open>The functions of \<open>Math\<close> that the program calls.\<close>

fun Math_sqrt :: "jsnum \<Rightarrow> jsnum" where
  "Math_sqrt (Fin a) = (if a < 0 then NaN else Fin (sqrt a))"
| "Math_sqrt PInf = PInf"
| "Math_sqrt NInf = NaN"
| "Math_sqrt NaN = NaN"

definition Math_pow2 :: "jsnum \<Rightarrow> jsnum" where
  \<comment> \<open>\<open>Math.pow(a, 2)\<close>\<close>
  "Math_pow2 a = a * a"

fun Math_cos :: "jsnum \<Rightarrow> jsnum" where
  "Math_cos (Fin a) = Fin (cos a)"
| "Math_cos a = NaN"

fun Math_sin :: "jsnum \<Rightarrow> jsnum" where
  "Math_sin (Fin a) = Fin (sin a)"
| "Math_sin a = NaN"

definition atan2 :: "real \<Rightarrow> real \<Rightarrow> real" where
  \<comment> \<open>the angle of the point \<open>(b, a)\<close>, in \<open>(-pi, pi]\<close>; \<open>0\<close> at the origin\<close>
  "atan2 a b =
     (if b > 0 then arctan (a / b)
      else if b < 0 then (if a \<ge> 0 then arctan (a / b) + pi else arctan (a / b) - pi)
      else if a > 0 then pi / 2
      else if a < 0 then - (pi / 2)
      else 0)"

fun Math_atan2 :: "jsnum \<Rightarrow> jsnum \<Rightarrow> jsnum" where
  "Math_atan2 NaN b = NaN"
| "Math_atan2 a NaN = NaN"
| "Math_atan2 (Fin a) (Fin b) = Fin (atan2 a b)"
| "Math_atan2 (Fin a) PInf = Fin 0"
| "Math_atan2 (Fin a) NInf = (if a \<ge> 0 then Fin pi else Fin (- pi))"
| "Math_atan2 PInf (Fin b) = Fin (pi / 2)"
| "Math_atan2 NInf (Fin b) = Fin (- (pi / 2))"
| "Math_atan2 PInf PInf = Fin (pi / 4)"
| "Math_atan2 PInf NInf = Fin (3 * pi / 4)"
| "Math_atan2 NInf PInf = Fin (- (pi / 4))"
| "Math_atan2 NInf NInf = Fin (- (3 * pi / 4))"

fun Math_floor :: "jsnum \<Rightarrow> jsnum" where
  "Math_floor (Fin a) = Fin (of_int \<lfloor>a\<rfloor>)"
| "Math_floor a = a"

fun Math_ceil :: "jsnum \<Rightarrow> jsnum" where
  "Math_ceil (Fin a) = Fin (of_int \<lceil>a\<rceil>)"
| "Math_ceil a = a"

fun Math_min :: "jsnum \<Rightarrow> jsnum \<Rightarrow> jsnum" where
  "Math_min NaN b = NaN"
| "Math_min a NaN = NaN"
| "Math_min (Fin a) (Fin b) = Fin (min a b)"
| "Math_min NInf b = NInf"
| "Math_min a NInf = NInf"
| "Math_min PInf b = b"
| "Math_min a PInf = a"

definition js_or :: "jsnum \<Rightarrow> jsnum \<Rightarrow> jsnum" where
  \<comment> \<open>\<open>a || b\<close> on numbers: \<open>0\<close> and \<open>NaN\<close> are falsy\<close>
  "js_or a b = (if a = Fin 0 \<or> a = NaN then b else a)"

datatype error = TypeError

section \<open>normalization.js: the One Euro filter\<close>

text \<open>
  The state of an object is a record, and a method takes the record and returns its
  result with the new record. The fields \<open>y\<close>, \<open>s\<close>, \<open>alpha\<close>, \<open>w\<close> of a
  \<open>LowPassFilter\<close> are \<open>lp_y\<close>, \<open>lp_s\<close>, \<open>lp_alpha\<close>, \<open>lp_w\<close> here, and the fields
  \<open>x\<close> and \<open>dx\<close> of a \<open>OneEuroFilter\<close> are \<open>xf\<close> and \<open>dxf\<close>: the plain names are
  those of the coordinates of a point. A field that is \<open>undefined\<close> is \<open>None\<close>.
\<close>

record LowPassFilter =
  lp_y :: jsnum
  lp_s :: "jsnum option"
  lp_alpha :: jsnum
  lp_w :: "jsnum option"

definition new_LowPassFilter :: "jsnum \<Rightarrow> jsnum \<Rightarrow> LowPassFilter" where
  \<comment> \<open>the constructor: \<open>s\<close> is reset to \<open>undefined\<close>, \<open>w\<close> is never assigned\<close>
  "new_LowPassFilter alpha initValue =
     \<lparr>lp_y = initValue, lp_s = None, lp_alpha = alpha, lp_w = None\<rparr>"

definition LowPassFilter_filter :: "LowPassFilter \<Rightarrow> jsnum \<Rightarrow> jsnum \<times> LowPassFilter" where
  "LowPassFilter_filter f val =
     (let result = (case lp_s f of
                      None \<Rightarrow> val
                    | Some s \<Rightarrow> lp_alpha f * val + (Fin 1 - lp_alpha f) * s)
      in (result, f\<lparr>lp_s := Some result, lp_w := Some val\<rparr>))"

definition filterWithAlpha :: "LowPassFilter \<Rightarrow> jsnum \<Rightarrow> jsnum \<Rightarrow> jsnum \<times> LowPassFilter" where
  "filterWithAlpha f val alpha = LowPassFilter_filter (f\<lparr>lp_alpha := alpha\<rparr>) val"

definition hasLastRawValue :: "LowPassFilter \<Rightarrow> bool" where
  "hasLastRawValue f = (lp_w f \<noteq> None)"

definition lastRawValue :: "LowPassFilter \<Rightarrow> jsnum option" where
  "lastRawValue f = lp_w f"

record OneEuroFilter =
  freq :: jsnum
  minCutoff :: jsnum
  beta :: jsnum
  dCutoff :: jsnum
  xf :: LowPassFilter
  dxf :: LowPassFilter
  lastTime :: "real option"

definition alpha_of :: "jsnum \<Rightarrow> jsnum \<Rightarrow> jsnum" where
  \<comment> \<open>\<open>alpha(cutoff)\<close> at sampling frequency \<open>fr\<close>\<close>
  "alpha_of fr cutoff =
     (let te = Fin 1 / fr;
          tau = Fin 1 / (Fin 2 * Fin pi * cutoff)
      in Fin 1 / (Fin 1 + tau / te))"

definition new_OneEuroFilter :: "jsnum \<Rightarrow> jsnum \<Rightarrow> jsnum \<Rightarrow> jsnum \<Rightarrow> OneEuroFilter" where
  "new_OneEuroFilter fr mc b dc =
     \<lparr>freq = fr, minCutoff = mc, beta = b, dCutoff = dc,
      xf = new_LowPassFilter (alpha_of fr mc) (Fin 0),
      dxf = new_LowPassFilter (alpha_of fr dc) (Fin 0),
      lastTime = None\<rparr>"

definition OneEuroFilter_filter ::
  "OneEuroFilter \<Rightarrow> real \<Rightarrow> real option \<Rightarrow> jsnum \<times> OneEuroFilter" where
  \<comment> \<open>\<open>filter(value, timestamp)\<close>; a missing timestamp is \<open>None\<close>\<close>
  "OneEuroFilter_filter f val timestamp =
     (let f1 = (case (lastTime f, timestamp) of
                  (Some lt, Some t) \<Rightarrow> f\<lparr>freq := Fin 1 / (Fin t - Fin lt)\<rparr>
                | _ \<Rightarrow> f);
          f2 = f1\<lparr>lastTime := timestamp\<rparr>;
          dvalue = (if hasLastRawValue (xf f2)
                    then (Fin val - the (lastRawValue (xf f2))) * freq f2
                    else Fin 0);
          (edvalue, dx') = filterWithAlpha (dxf f2) dvalue (alpha_of (freq f2) (dCutoff f2));
          cutoff = minCutoff f2 + beta f2 * \<bar>edvalue\<bar>;
          (result, x') = filterWithAlpha (xf f2) (Fin val) (alpha_of (freq f2) cutoff)
      in (result, f2\<lparr>xf := x', dxf := dx'\<rparr>))"

fun feed :: "OneEuroFilter \<Rightarrow> (real \<times> real option) list \<Rightarrow> OneEuroFilter" where
  \<comment> \<open>a sequence of calls of \<open>filter\<close> on one filter\<close>
  "feed f [] = f"
| "feed f ((val, t) # calls) = feed (snd (OneEuroFilter_filter f val t)) calls"

section \<open>normalization.js: the engine\<close>

text \<open>
  A point is an object with the fields \<open>x\<close>, \<open>y\<close>, \<open>z\<close>; a pose point also has
  \<open>visibility\<close>; a raw landmark of the detector may carry the short field \<open>v\<close> as well.
  A field that is absent (\<open>undefined\<close>) is \<open>None\<close>. The coordinates of raw landmarks and
  the timestamps come from outside and are finite numbers, hence of type \<open>real\<close>; what
  the engine computes from them is a \<open>jsnum\<close>. A pose is an array of such objects;
  reading a landmark past its end yields \<open>undefined\<close>, and reading a coordinate of that
  raises a \<open>TypeError\<close>. The three filters \<open>x\<close>, \<open>y\<close>, \<open>z\<close> of a landmark are
  \<open>fx\<close>, \<open>fy\<close>, \<open>fz\<close>, and the engine's own \<open>minCutoff\<close>, \<open>beta\<close>, \<open>dCutoff\<close>
  carry the prefix \<open>ne_\<close>. The methods \<open>getMidPoint\<close> and \<open>getDistance\<close> of the engine
  are \<open>NE_getMidPoint\<close> and \<open>NE_getDistance\<close>; \<open>getMidPoint\<close> is the function of that
  name in recorder.js.
\<close>

record 'n vec3 =
  x :: 'n
  y :: 'n
  z :: 'n

record 'n point = "'n vec3" +
  visibility :: "real option"

record 'n landmark = "'n point" +
  v :: "real option"

record axisFilters =
  fx :: OneEuroFilter
  fy :: OneEuroFilter
  fz :: OneEuroFilter

record NormalizationEngine =
  ne_minCutoff :: jsnum
  ne_beta :: jsnum
  ne_dCutoff :: jsnum
  filters :: "axisFilters list"

definition new_NormalizationEngine :: NormalizationEngine where
  "new_NormalizationEngine =
     (let mc = Fin 1; b = Fin 0; dc = Fin 1
      in \<lparr>ne_minCutoff = mc, ne_beta = b, ne_dCutoff = dc,
          filters = replicate 33
            \<lparr>fx = new_OneEuroFilter (Fin 30) mc b dc,
             fy = new_OneEuroFilter (Fin 30) mc b dc,
             fz = new_OneEuroFilter (Fin 30) mc b dc\<rparr>\<rparr>)"

definition truthy :: "real option \<Rightarrow> bool" where
  "truthy a = (case a of None \<Rightarrow> False | Some r \<Rightarrow> r \<noteq> 0)"

definition visibilityOf :: "real landmark \<Rightarrow> real" where
  \<comment> \<open>\<open>pt.visibility || pt.v || 0\<close>\<close>
  "visibilityOf pt =
     (if truthy (visibility pt) then the (visibility pt)
      else if truthy (v pt) then the (v pt)
      else 0)"

definition rawPoint :: "real landmark \<Rightarrow> jsnum point" where
  \<comment> \<open>a raw landmark passed on as it is, read as a pose point\<close>
  "rawPoint pt = \<lparr>x = Fin (x pt), y = Fin (y pt), z = Fin (z pt), visibility = visibility pt\<rparr>"

fun applyFilterLoop ::
  "axisFilters list \<Rightarrow> real option \<Rightarrow> nat \<Rightarrow> real landmark list
     \<Rightarrow> (error + jsnum point list) \<times> axisFilters list" where
  "applyFilterLoop fs t i [] = (Inr [], fs)"
| "applyFilterLoop fs t i (pt # pts) =
     (if i \<ge> 33 then
        (case applyFilterLoop fs t (Suc i) pts of
           (Inl e, fs') \<Rightarrow> (Inl e, fs')
         | (Inr out, fs') \<Rightarrow> (Inr (rawPoint pt # out), fs'))
      else if i \<ge> length fs then (Inl TypeError, fs)
      else
        (let (vx, fx') = OneEuroFilter_filter (fx (fs ! i)) (x pt) t;
             (vy, fy') = OneEuroFilter_filter (fy (fs ! i)) (y pt) t;
             (vz, fz') = OneEuroFilter_filter (fz (fs ! i)) (z pt) t;
             fs1 = fs[i := \<lparr>fx = fx', fy = fy', fz = fz'\<rparr>];
             p = \<lparr>x = vx, y = vy, z = vz, visibility = Some (visibilityOf pt)\<rparr>
         in case applyFilterLoop fs1 t (Suc i) pts of
              (Inl e, fs') \<Rightarrow> (Inl e, fs')
            | (Inr out, fs') \<Rightarrow> (Inr (p # out), fs')))"

definition applyFilter ::
  "NormalizationEngine \<Rightarrow> real landmark list \<Rightarrow> real option
     \<Rightarrow> (error + jsnum point list) \<times> NormalizationEngine" where
  "applyFilter eng landmarks timestamp =
     (case applyFilterLoop (filters eng) timestamp 0 landmarks of
        (r, fs') \<Rightarrow> (r, eng\<lparr>filters := fs'\<rparr>))"

definition NE_getMidPoint :: "(jsnum, 'a) vec3_scheme \<Rightarrow> (jsnum, 'b) vec3_scheme \<Rightarrow> jsnum vec3" where
  "NE_getMidPoint p1 p2 =
     \<lparr>x = (x p1 + x p2) / Fin 2, y = (y p1 + y p2) / Fin 2, z = (z p1 + z p2) / Fin 2\<rparr>"

definition NE_getDistance :: "(jsnum, 'a) vec3_scheme \<Rightarrow> (jsnum, 'b) vec3_scheme \<Rightarrow> jsnum" where
  "NE_getDistance p1 p2 =
     Math_sqrt (Math_pow2 (x p1 - x p2) + Math_pow2 (y p1 - y p2) + Math_pow2 (z p1 - z p2))"

record segment =
  indices :: "nat list"
  weight :: real

definition segments :: "segment list" where
  "segments =
     [\<lparr>indices = [0], weight = 0.07\<rparr>,
      \<lparr>indices = [11, 13], weight = 0.028\<rparr>,
      \<lparr>indices = [12, 14], weight = 0.028\<rparr>,
      \<lparr>indices = [13, 15], weight = 0.016\<rparr>,
      \<lparr>indices = [14, 16], weight = 0.016\<rparr>,
      \<lparr>indices = [15, 17, 19, 21], weight = 0.006\<rparr>,
      \<lparr>indices = [16, 18, 20, 22], weight = 0.006\<rparr>,
      \<lparr>indices = [23, 25], weight = 0.10\<rparr>,
      \<lparr>indices = [24, 26], weight = 0.10\<rparr>,
      \<lparr>indices = [25, 27], weight = 0.0465\<rparr>,
      \<lparr>indices = [26, 28], weight = 0.0465\<rparr>,
      \<lparr>indices = [27, 29, 31], weight = 0.0145\<rparr>,
      \<lparr>indices = [28, 30, 32], weight = 0.0145\<rparr>]"

definition addSegment ::
  "jsnum point list \<Rightarrow> segment \<Rightarrow> jsnum \<times> jsnum \<times> jsnum \<times> jsnum
     \<Rightarrow> jsnum \<times> jsnum \<times> jsnum \<times> jsnum" where
  \<comment> \<open>one round of \<open>segments.forEach\<close> on \<open>(sumX, sumY, sumZ, totalMass)\<close>\<close>
  "addSegment ps seg acc =
     (case acc of (sumX, sumY, sumZ, totalMass) \<Rightarrow>
        (let (segX, segY, segZ) =
               fold (\<lambda>idx (sx, sy, sz). (sx + x (ps ! idx), sy + y (ps ! idx), sz + z (ps ! idx)))
                 (indices seg) (Fin 0, Fin 0, Fin 0);
             n = Fin (real (length (indices seg)));
             segX = segX / n; segY = segY / n; segZ = segZ / n
         in (sumX + segX * Fin (weight seg), sumY + segY * Fin (weight seg),
             sumZ + segZ * Fin (weight seg), totalMass + Fin (weight seg))))"

definition calculateCOG :: "jsnum point list \<Rightarrow> error + jsnum vec3" where
  \<comment> \<open>every index read is below 33 and index 32 is read: a shorter pose raises\<close>
  "calculateCOG ps =
     (if length ps < 33 then Inl TypeError
      else
        (let shoulderMid = NE_getMidPoint (ps ! 11) (ps ! 12);
             hipMid = NE_getMidPoint (ps ! 23) (ps ! 24);
             trunkCenter = NE_getMidPoint shoulderMid hipMid;
             trunkWeight = Fin 0.50;
             start = (Fin 0 + x trunkCenter * trunkWeight, Fin 0 + y trunkCenter * trunkWeight,
                      Fin 0 + z trunkCenter * trunkWeight, Fin 0 + trunkWeight)
         in case fold (addSegment ps) segments start of
              (sumX, sumY, sumZ, totalMass) \<Rightarrow>
                Inr \<lparr>x = sumX / totalMass, y = sumY / totalMass, z = sumZ / totalMass\<rparr>))"

definition rotateY :: "jsnum point \<Rightarrow> jsnum \<Rightarrow> jsnum point" where
  "rotateY p theta =
     \<lparr>x = x p * Math_cos theta - z p * Math_sin theta,
      y = y p,
      z = x p * Math_sin theta + z p * Math_cos theta,
      visibility = visibility p\<rparr>"

definition hipCenterOf :: "jsnum point list \<Rightarrow> jsnum vec3" where
  "hipCenterOf ps = NE_getMidPoint (ps ! 23) (ps ! 24)"

definition translatedPose :: "jsnum point list \<Rightarrow> jsnum point list" where
  "translatedPose ps =
     map (\<lambda>p. \<lparr>x = x p - x (hipCenterOf ps), y = y p - y (hipCenterOf ps),
               z = z p - z (hipCenterOf ps), visibility = visibility p\<rparr>) ps"

definition angleY :: "jsnum point list \<Rightarrow> jsnum" where
  "angleY ps =
     (let leftHip = translatedPose ps ! 23;
          rightHip = translatedPose ps ! 24;
          dx = x leftHip - x rightHip;
          dz = z leftHip - z rightHip
      in Math_atan2 dz dx)"

definition rotatedPose :: "jsnum point list \<Rightarrow> jsnum point list" where
  "rotatedPose ps = map (\<lambda>p. rotateY p (- angleY ps)) (translatedPose ps)"

definition origin :: "jsnum vec3" where
  "origin = \<lparr>x = Fin 0, y = Fin 0, z = Fin 0\<rparr>"

definition finitePoint :: "(jsnum, 'a) vec3_scheme \<Rightarrow> bool" where
  \<comment> \<open>a point whose three coordinates are finite numbers\<close>
  "finitePoint p = (isFinite (x p) \<and> isFinite (y p) \<and> isFinite (z p))"

definition spineLength :: "jsnum point list \<Rightarrow> jsnum" where
  "spineLength ps =
     (let rShoulderMid = NE_getMidPoint (rotatedPose ps ! 11) (rotatedPose ps ! 12);
          rHipMid = origin
      in js_or (NE_getDistance rShoulderMid rHipMid) (Fin 1))"

definition normalizePose ::
  "jsnum point list \<Rightarrow> jsnum vec3 \<Rightarrow> error + jsnum point list \<times> jsnum vec3" where
  \<comment> \<open>the indices read are 23, 24, 11 and 12: a pose shorter than 25 raises\<close>
  "normalizePose ps cog =
     (if length ps < 25 then Inl TypeError
      else
        (let hipCenter = hipCenterOf ps;
             normCog = \<lparr>x = x cog - x hipCenter, y = y cog - y hipCenter,
                        z = z cog - z hipCenter, visibility = None\<rparr>;
             normCog = rotateY normCog (- angleY ps);
             scaledPose = map (\<lambda>p. \<lparr>x = x p / spineLength ps, y = y p / spineLength ps,
                                       z = z p / spineLength ps, visibility = visibility p\<rparr>)
                            (rotatedPose ps);
             normCog = \<lparr>x = x normCog / spineLength ps, y = y normCog / spineLength ps,
                        z = z normCog / spineLength ps\<rparr>
         in Inr (scaledPose, normCog)))"

definition extractFeaturesV3 :: "jsnum point list \<Rightarrow> jsnum vec3 \<Rightarrow> error + jsnum list" where
  \<comment> \<open>the largest index read is 32: a pose shorter than 33 raises\<close>
  "extractFeaturesV3 ps cog =
     (if length ps < 33 then Inl TypeError
      else
        (let features = [];
             features = features @ [x (ps ! 19), y (ps ! 19), z (ps ! 19)];
             features = features @ [x (ps ! 20), y (ps ! 20), z (ps ! 20)];
             features = features @ [x (ps ! 31), y (ps ! 31), z (ps ! 31)];
             features = features @ [x (ps ! 32), y (ps ! 32), z (ps ! 32)];
             features = features @ [x (ps ! 25), y (ps ! 25), z (ps ! 25)];
             features = features @ [x (ps ! 26), y (ps ! 26), z (ps ! 26)];
             shoulderVecX = x (ps ! 11) - x (ps ! 12);
             shoulderVecZ = z (ps ! 11) - z (ps ! 12);
             shoulderAngle = Math_atan2 shoulderVecZ shoulderVecX * Fin (180 / pi);
             features = features @ [Fin 0];
             features = features @ [shoulderAngle];
             features = features @ [x cog, z cog];
             features = features @ [NE_getDistance (ps ! 0) (ps ! 19)];
             features = features @ [NE_getDistance (ps ! 0) (ps ! 20)]
         in Inr features))"

definition process ::
  "NormalizationEngine \<Rightarrow> real landmark list option \<Rightarrow> real option
     \<Rightarrow> (error + jsnum list option) \<times> NormalizationEngine" where
  \<comment> \<open>\<open>landmarks\<close> is \<open>None\<close> when it is \<open>null\<close> or \<open>undefined\<close>; the result \<open>None\<close> is \<open>null\<close>\<close>
  "process eng landmarks timestamp =
     (case landmarks of
        None \<Rightarrow> (Inr None, eng)
      | Some lms \<Rightarrow>
          if length lms < 33 then (Inr None, eng)
          else
            (case applyFilter eng lms timestamp of
               (Inl e, eng') \<Rightarrow> (Inl e, eng')
             | (Inr smoothedPose, eng') \<Rightarrow>
                 (case calculateCOG smoothedPose of
                    Inl e \<Rightarrow> (Inl e, eng')
                  | Inr cog \<Rightarrow>
                      (case normalizePose smoothedPose cog of
                         Inl e \<Rightarrow> (Inl e, eng')
                       | Inr (normPose, normCog) \<Rightarrow>
                           (case extractFeaturesV3 normPose normCog of
                              Inl e \<Rightarrow> (Inl e, eng')
                            | Inr features \<Rightarrow> (Inr (Some features), eng'))))))"

section \<open>recorder.js\<close>

text \<open>
  The recorder works on the raw landmarks of the detector (finite numbers) and on the
  capture times in milliseconds. A captured frame holds its time and its pose.
\<close>

record frame =
  time :: real
  pose :: "real landmark list"

subsection \<open>mirrorPose\<close>

text \<open>
  \<open>mirrorPose\<close> is the one function that writes array slots. Reading a slot past the
  end yields \<open>undefined\<close> and writing one extends the array, so its arrays are lists of
  optional entries: \<open>None\<close> is an entry that is \<open>undefined\<close> (or \<open>null\<close>, or a hole
  left by an extension), and negating the \<open>x\<close> of such an entry raises.
\<close>

definition js_get :: "'a option list \<Rightarrow> nat \<Rightarrow> 'a option" where
  "js_get a i = (if i < length a then a ! i else None)"

definition js_set :: "'a option list \<Rightarrow> nat \<Rightarrow> 'a option \<Rightarrow> 'a option list" where
  "js_set a i e = (if i < length a then a[i := e] else a @ replicate (i - length a) None @ [e])"

definition swapPairs :: "(nat \<times> nat) list" where
  "swapPairs =
     [(11, 12), (13, 14), (15, 16),
      (17, 18), (19, 20), (21, 22),
      (23, 24), (25, 26), (27, 28),
      (29, 30), (31, 32)]"

definition swapPair :: "nat \<times> nat \<Rightarrow> 'a option list \<Rightarrow> 'a option list" where
  "swapPair lr a =
     (case lr of (left, right) \<Rightarrow>
        (let temp = js_get a left;
             a1 = js_set a left (js_get a right)
         in js_set a1 right temp))"

definition mirrorPose :: "real landmark option list \<Rightarrow> error + real landmark option list" where
  "mirrorPose ps =
     (if None \<in> set ps then Inl TypeError
      else Inr (fold swapPair swapPairs (map (map_option (\<lambda>pt. pt\<lparr>x := x pt * (- 1)\<rparr>)) ps)))"

subsection \<open>calculateMetrics\<close>

record part =
  part_id :: nat
  part_name :: string

definition parts :: "part list" where
  "parts =
     [\<lparr>part_id = 19, part_name = ''left_hand''\<rparr>,
      \<lparr>part_id = 20, part_name = ''right_hand''\<rparr>,
      \<lparr>part_id = 31, part_name = ''left_foot''\<rparr>,
      \<lparr>part_id = 32, part_name = ''right_foot''\<rparr>]"

definition getMidPoint :: "(real, 'a) vec3_scheme \<Rightarrow> (real, 'b) vec3_scheme \<Rightarrow> real vec3" where
  "getMidPoint p1 p2 =
     \<lparr>x = (x p1 + x p2) / 2, y = (y p1 + y p2) / 2, z = (z p1 + z p2) / 2\<rparr>"

definition limbDist :: "frame \<Rightarrow> nat \<Rightarrow> real" where
  \<comment> \<open>\<open>dist\<close>: the distance of landmark \<open>pid\<close> from the hip centre of its frame\<close>
  "limbDist fr pid =
     (let hipCenter = getMidPoint (pose fr ! 23) (pose fr ! 24);
          limb = pose fr ! pid
      in sqrt ((x limb - x hipCenter) ^ 2 + (y limb - y hipCenter) ^ 2 + (z limb - z hipCenter) ^ 2))"

definition scanFrame :: "nat \<Rightarrow> frame \<times> nat \<Rightarrow> real \<times> nat \<Rightarrow> real \<times> nat" where
  \<comment> \<open>one round of \<open>history.forEach\<close> on \<open>(localMaxDist, localApexIndex)\<close>\<close>
  "scanFrame pid fi acc =
     (case (fi, acc) of ((fr, i), (localMaxDist, localApexIndex)) \<Rightarrow>
        (let dist = limbDist fr pid
         in if dist > localMaxDist then (dist, i) else (localMaxDist, localApexIndex)))"

definition scanPart :: "frame list \<Rightarrow> nat \<Rightarrow> real \<times> nat" where
  "scanPart history pid = fold (scanFrame pid) (zip history [0..<length history]) (0, 0)"

definition selectPart ::
  "frame list \<Rightarrow> part \<Rightarrow> real \<times> nat \<times> string \<times> nat \<Rightarrow> real \<times> nat \<times> string \<times> nat" where
  \<comment> \<open>one round of \<open>parts.forEach\<close> on
     \<open>(maxExtension, activePartId, activePartName, apexFrameIndex)\<close>\<close>
  "selectPart history pt acc =
     (case acc of (maxExtension, activePartId, activePartName, apexFrameIndex) \<Rightarrow>
        (case scanPart history (part_id pt) of (localMaxDist, localApexIndex) \<Rightarrow>
           if localMaxDist > maxExtension
           then (localMaxDist, part_id pt, part_name pt, localApexIndex)
           else (maxExtension, activePartId, activePartName, apexFrameIndex)))"

definition activePart :: "frame list \<Rightarrow> real \<times> nat \<times> string \<times> nat" where
  "activePart history = fold (selectPart history) parts (0, 20, ''right_hand'', 0)"

definition roundEven :: "real \<Rightarrow> int" where
  \<comment> \<open>the nearest integer, a tie going to the even one\<close>
  "roundEven r =
     (let n = \<lfloor>r\<rfloor>; f = r - of_int n
      in if f < 1 / 2 then n else if f > 1 / 2 then n + 1 else if even n then n else n + 1)"

fun binadeFrom :: "real \<Rightarrow> nat \<Rightarrow> int" where
  \<comment> \<open>the largest exponent \<open>e\<close> from \<open>-1021\<close> to \<open>n - 1022\<close> with \<open>2^e \<le> a\<close>, and \<open>-1022\<close>
     when there is none\<close>
  "binadeFrom a 0 = - 1022"
| "binadeFrom a (Suc n) =
     (if 2 powi (int (Suc n) - 1022) \<le> a then int (Suc n) - 1022 else binadeFrom a n)"

definition binade :: "real \<Rightarrow> int" where
  \<comment> \<open>the exponent of the binade of a double: from \<open>-1022\<close> (the subnormal and the
     smallest normal numbers) to \<open>1023\<close>\<close>
  "binade a = binadeFrom \<bar>a\<bar> 2045"

definition toDouble :: "real \<Rightarrow> real" where
  \<comment> \<open>the double (IEEE 754 binary64, round to nearest, ties to even) of a real number:
     the nearest multiple of the unit in the last place \<open>u\<close> of its binade, 53 bits
     wide. The overflow to \<open>Infinity\<close> beyond the largest double is not modelled.\<close>
  "toDouble a = (let u = 2 powi (binade a - 52) in of_int (roundEven (a / u)) * u)"

definition toFixed2 :: "real \<Rightarrow> real" where
  \<comment> \<open>\<open>parseFloat(a.toFixed(2))\<close>, where \<open>a\<close> is a double: of the double \<open>d\<close> nearest to the
     exact value, the nearest multiple of 0.01, a tie going away from zero; from
     \<open>10^21\<close> on \<open>toFixed\<close> prints the number itself\<close>
  "toFixed2 a =
     (let d = toDouble a
      in if \<bar>d\<bar> \<ge> 10 ^ 21 then d
         else if d < 0 then - (of_int \<lfloor>(- d) * 100 + 1 / 2\<rfloor> / 100)
         else of_int \<lfloor>d * 100 + 1 / 2\<rfloor> / 100)"

definition frameDt :: "frame list \<Rightarrow> nat \<Rightarrow> real" where
  \<comment> \<open>\<open>dt\<close>: the seconds between the frames \<open>i - 1\<close> and \<open>i\<close>\<close>
  "frameDt history i = (time (history ! i) - time (history ! (i - 1))) / 1000"

definition pairDist :: "frame list \<Rightarrow> nat \<Rightarrow> nat \<Rightarrow> real" where
  \<comment> \<open>\<open>dist\<close>: how far landmark \<open>partId\<close> moves from frame \<open>i - 1\<close> to frame \<open>i\<close>\<close>
  "pairDist history partId i =
     (let p1 = pose (history ! (i - 1)) ! partId;
          p2 = pose (history ! i) ! partId
      in sqrt ((x p2 - x p1) ^ 2 + (y p2 - y p1) ^ 2 + (z p2 - z p1) ^ 2))"

definition pairSpeed :: "frame list \<Rightarrow> nat \<Rightarrow> real \<Rightarrow> nat \<Rightarrow> real" where
  \<comment> \<open>\<open>speed\<close> of the pair of frames \<open>i - 1\<close>, \<open>i\<close>\<close>
  "pairSpeed history partId scale i = (pairDist history partId i * scale) / frameDt history i"

fun speedLoop :: "frame list \<Rightarrow> nat \<Rightarrow> real \<Rightarrow> nat list \<Rightarrow> real \<Rightarrow> error + real" where
  \<comment> \<open>the \<open>for\<close> loop over the indices still to visit, on \<open>maxSpeed\<close>\<close>
  "speedLoop history partId scale [] maxSpeed = Inr maxSpeed"
| "speedLoop history partId scale (i # rest) maxSpeed =
     (if i \<ge> length history then Inl TypeError
      else if frameDt history i \<le> 0
        then speedLoop history partId scale rest maxSpeed
      else if partId \<ge> length (pose (history ! (i - 1))) \<or> partId \<ge> length (pose (history ! i))
        then Inl TypeError
      else
        (let speed = pairSpeed history partId scale i
         in if speed < 25.0 \<and> speed > maxSpeed
            then speedLoop history partId scale rest speed
            else speedLoop history partId scale rest maxSpeed))"

definition calculateMaxSpeedInRange ::
  "frame list \<Rightarrow> nat \<Rightarrow> nat \<Rightarrow> nat \<Rightarrow> real \<Rightarrow> error + real" where
  "calculateMaxSpeedInRange history startIndex endIndex partId scale =
     (if endIndex \<le> startIndex then Inr 0
      else
        (case speedLoop history partId scale [startIndex + 1 ..< endIndex + 1] 0 of
           Inl e \<Rightarrow> Inl e
         | Inr maxSpeed \<Rightarrow> Inr (toFixed2 maxSpeed)))"

record metrics =
  duration_sec :: real
  active_part :: string
  max_speed_outbound :: real
  max_speed_return :: real
  apex_frame :: nat

definition calculateMetrics :: "frame list \<Rightarrow> real \<Rightarrow> error + metrics option" where
  \<comment> \<open>the result \<open>None\<close> is the empty object \<open>{}\<close>. Every frame is read at the indices
     23, 24, 19, 20, 31 and 32: a pose shorter than 33 raises\<close>
  "calculateMetrics history heightCm =
     (if length history < 5 then Inr None
      else if list_ex (\<lambda>fr. length (pose fr) < 33) history then Inl TypeError
      else
        (case activePart history of
           (maxExtension, activePartId, activePartName, apexFrameIndex) \<Rightarrow>
             (let heightScale = heightCm / 175.0 in
              case calculateMaxSpeedInRange history 0 apexFrameIndex activePartId heightScale of
                Inl e \<Rightarrow> Inl e
              | Inr speedOut \<Rightarrow>
                  (case calculateMaxSpeedInRange history apexFrameIndex (length history - 1)
                          activePartId heightScale of
                     Inl e \<Rightarrow> Inl e
                   | Inr speedRet \<Rightarrow>
                       (let startTime = time (history ! 0);
                            endTime = time (history ! (length history - 1));
                            durationSec = (endTime - startTime) / 1000
                        in Inr (Some \<lparr>duration_sec = toFixed2 durationSec,
                                      active_part = activePartName,
                                      max_speed_outbound = speedOut,
                                      max_speed_return = speedRet,
                                      apex_frame = apexFrameIndex\<rparr>))))))"

subsection \<open>resampleTimeSeries\<close>

fun js_index :: "'a list \<Rightarrow> jsnum \<Rightarrow> 'a option" where
  \<comment> \<open>\<open>data[k]\<close> for a number \<open>k\<close>: an element only at an integer within the array\<close>
  "js_index xs (Fin r) =
     (if 0 \<le> r \<and> r = of_int \<lfloor>r\<rfloor> \<and> nat \<lfloor>r\<rfloor> < length xs then Some (xs ! nat \<lfloor>r\<rfloor>) else None)"
| "js_index xs k = None"

definition resampleFrame :: "jsnum list list \<Rightarrow> jsnum \<Rightarrow> nat \<Rightarrow> error + jsnum list" where
  \<comment> \<open>the body of the loop: \<open>newFrame\<close> at position \<open>i\<close>. A component missing in
     \<open>frameHigh\<close> is \<open>undefined\<close>, which the subtraction reads as \<open>NaN\<close>\<close>
  "resampleFrame data step i =
     (let originalIndex = Fin (real i) * step;
          indexLow = Math_floor originalIndex;
          indexHigh = Math_min (Math_ceil originalIndex) (Fin (real (length data) - 1));
          ratio = originalIndex - indexLow;
          frameLow = js_index data indexLow;
          frameHigh = js_index data indexHigh
      in case frameLow of
           None \<Rightarrow> Inl TypeError
         | Some fl \<Rightarrow>
             if fl = [] then Inr []
             else
               (case frameHigh of
                  None \<Rightarrow> Inl TypeError
                | Some fh \<Rightarrow>
                    Inr (map (\<lambda>(val, idx).
                           val + ((if idx < length fh then fh ! idx else NaN) - val) * ratio)
                         (zip fl [0..<length fl]))))"

fun resampleLoop ::
  "jsnum list list \<Rightarrow> jsnum \<Rightarrow> nat list \<Rightarrow> jsnum list list \<Rightarrow> error + jsnum list list" where
  "resampleLoop data step [] resampled = Inr resampled"
| "resampleLoop data step (i # rest) resampled =
     (case resampleFrame data step i of
        Inl e \<Rightarrow> Inl e
      | Inr newFrame \<Rightarrow> resampleLoop data step rest (resampled @ [newFrame]))"

definition resampleTimeSeries :: "jsnum list list \<Rightarrow> nat \<Rightarrow> error + jsnum list list" where
  "resampleTimeSeries data targetLen =
     (if length data = 0 then Inr []
      else if length data = 1 then Inr (replicate targetLen (data ! 0))
      else
        (let step = Fin (real (length data) - 1) / Fin (real targetLen - 1)
         in resampleLoop data step [0..<targetLen] []))"

section \<open>Notions of the statements and proofs\<close>



definition mirrorIndex :: "nat \<Rightarrow> nat" where
  \<comment> \<open>where \<open>mirrorPose\<close> takes the entry of an index from: its partner in \<open>swapPairs\<close>\<close>
  "mirrorIndex i = (case map_of (swapPairs @ map prod.swap swapPairs) i of Some j \<Rightarrow> j | None \<Rightarrow> i)"

definition spec_resample :: "jsnum list list \<Rightarrow> nat \<Rightarrow> jsnum list list" where
  \<comment> \<open>The resampling as the specification words it (section 4.7), to compare
     \<open>resampleTimeSeries\<close> with: the empty input gives the empty output, a single element
     is copied, and otherwise position \<open>i\<close> of the output lies at \<open>i\<close> equal steps over
     the index range of the input and is interpolated, component by component, between
     the elements at the floor and at the ceiling (not beyond the last index) of this
     place, the weight being the distance to the floor.\<close>
  "spec_resample data N =
     (if data = [] then []
      else if length data = 1 then replicate N (hd data)
      else map (\<lambda>i.
             (let pos = real i * ((real (length data) - 1) / (real N - 1));
                  lo = nat \<lfloor>pos\<rfloor>;
                  hi = min (nat \<lceil>pos\<rceil>) (length data - 1);
                  w = pos - real lo
              in map2 (\<lambda>a b. a + (b - a) * Fin w) (data ! lo) (data ! hi)))
           [0..<N])"

definition spec_hipDistance :: "frame \<Rightarrow> nat \<Rightarrow> real" where
  \<comment> \<open>The specification's measure of extension (section 4.6, step 1): the 3D distance
     of landmark \<open>pid\<close> from the hip-midpoint of the same frame, the hip-midpoint being
     the average of the two hip landmarks 23 and 24.\<close>
  "spec_hipDistance fr pid =
     sqrt ((x (pose fr ! pid) - (x (pose fr ! 23) + x (pose fr ! 24)) / 2) ^ 2
         + (y (pose fr ! pid) - (y (pose fr ! 23) + y (pose fr ! 24)) / 2) ^ 2
         + (z (pose fr ! pid) - (z (pose fr ! 23) + z (pose fr ! 24)) / 2) ^ 2)"






definition phaseSamples :: "frame list \<Rightarrow> nat \<Rightarrow> real \<Rightarrow> nat \<Rightarrow> nat \<Rightarrow> real set" where
  \<comment> \<open>the values of \<open>speed\<close> that the loop of \<open>calculateMaxSpeedInRange\<close> compares with
     \<open>maxSpeed\<close>, for the indices from \<open>s + 1\<close> to \<open>e\<close>\<close>
  "phaseSamples history partId scale s e =
     pairSpeed history partId scale `
       {i. s < i \<and> i \<le> e \<and> 0 < frameDt history i \<and> pairSpeed history partId scale i < 25}"

definition scanInv :: "frame list \<Rightarrow> nat \<Rightarrow> nat \<Rightarrow> real \<times> nat \<Rightarrow> bool" where
  \<comment> \<open>what \<open>(localMaxDist, localApexIndex)\<close> is after the first \<open>k\<close> frames: the largest
     distance so far and the first frame that has it, or \<open>(0, 0)\<close> while no distance
     is positive\<close>
  "scanInv history pid k acc =
     (case acc of (M, a) \<Rightarrow>
        0 \<le> M \<and> (\<forall>j<k. limbDist (history ! j) pid \<le> M) \<and>
        (if 0 < M then a < k \<and> limbDist (history ! a) pid = M
                       \<and> (\<forall>j<a. limbDist (history ! j) pid < M)
         else a = 0))"

section \<open>Example windows\<close>

definition footPose :: "real \<Rightarrow> real landmark list" where
  \<comment> \<open>33 landmarks at the origin, but the left foot (31) at \<open>x = c\<close>\<close>
  "footPose c =
     map (\<lambda>i. \<lparr>x = (if i = 31 then c else 0), y = 0, z = 0, visibility = None, v = None\<rparr>)
       [0..<33]"

definition kickPose :: "real \<Rightarrow> real landmark list" where
  \<comment> \<open>33 landmarks: the hips (23, 24) at \<open>x = 4\<close> and \<open>x = -4\<close>, so that their midpoint is
     the origin, the right hand (20) at \<open>x = -1\<close>, the left foot (31) at depth \<open>z = c\<close>,
     every other landmark at the origin\<close>
  "kickPose c =
     map (\<lambda>i. \<lparr>x = (if i = 23 then 4 else if i = 24 then - 4 else if i = 20 then - 1 else 0),
                y = 0, z = (if i = 31 then c else 0), visibility = None, v = None\<rparr>)
       [0..<33]"

definition kickWindow :: "frame list" where
  \<comment> \<open>five frames, two seconds apart: the left foot goes out by 1.005 a frame up to
     frame 2 and comes back\<close>
  "kickWindow =
     map (\<lambda>j. \<lparr>time = 2000 * real j,
                pose = kickPose (if j \<le> 2 then real j * (1005 / 1000)
                                 else real (4 - j) * (1005 / 1000))\<rparr>) [0..<5]"

definition stillWindow :: "frame list" where
  \<comment> \<open>five frames in which every landmark stays at the origin\<close>
  "stillWindow = map (\<lambda>j. \<lparr>time = 1000 * real j, pose = footPose 0\<rparr>) [0..<5]"

section \<open>Properties of the One Euro filter\<close>

lemma filter_freq_increasing:
  "lastTime f = Some lt \<Longrightarrow> lt < t \<Longrightarrow>
   freq (snd (OneEuroFilter_filter f val (Some t))) = Fin (1 / (t - lt)) \<and> 0 < 1 / (t - lt)"
  by (simp add: OneEuroFilter_filter_def filterWithAlpha_def LowPassFilter_filter_def
       lastRawValue_def hasLastRawValue_def minus_jsnum_def Let_def split: prod.splits)

text \<open>
  Claim C9. Whatever the sequence of calls of the filter, also one whose timestamp is
  equal to or earlier than the timestamp of the call before, the estimated sampling
  frequency stays finite and positive.

  The code does not keep this: \<open>filter\<close> divides by the difference of the timestamps as
  it is. On a new filter (30 Hz, as the engine builds it), a second call at the same
  timestamp sets the frequency to \<open>Infinity\<close>, and a second call at an earlier
  timestamp sets it to a negative number.
\<close>

theorem filter_frequency_unguarded:
  "freq (feed (new_OneEuroFilter (Fin 30) (Fin 1) (Fin 0) (Fin 1)) [(0, Some 1), (0, Some 1)])
     = PInf \<and>
   freq (feed (new_OneEuroFilter (Fin 30) (Fin 1) (Fin 0) (Fin 1)) [(0, Some 1), (0, Some (1 / 2))])
     = Fin (- 2)"
  by (simp add: OneEuroFilter_filter_def filterWithAlpha_def LowPassFilter_filter_def
      new_OneEuroFilter_def new_LowPassFilter_def lastRawValue_def hasLastRawValue_def
      minus_jsnum_def Let_def split: prod.splits)

section \<open>Properties of the engine\<close>

lemma applyFilterLoop_ok:
  "33 \<le> length fs \<Longrightarrow>
   \<exists>out fs'. applyFilterLoop fs t i lms = (Inr out, fs') \<and> length out = length lms
      \<and> length fs' = length fs"
proof (induction lms arbitrary: fs i)
  case Nil
  then show ?case by simp
next
  case (Cons pt pts)
  show ?case
  proof (cases "33 \<le> i")
    case True
    from Cons.IH[OF Cons.prems, of "Suc i"] obtain out fs' where
      "applyFilterLoop fs t (Suc i) pts = (Inr out, fs')" "length out = length pts"
      "length fs' = length fs"
      by blast
    with True show ?thesis by simp
  next
    case False
    define fs1 where "fs1 = fs[i := \<lparr>fx = snd (OneEuroFilter_filter (fx (fs ! i)) (x pt) t),
        fy = snd (OneEuroFilter_filter (fy (fs ! i)) (y pt) t),
        fz = snd (OneEuroFilter_filter (fz (fs ! i)) (z pt) t)\<rparr>]"
    have l1: "33 \<le> length fs1" using Cons.prems by (simp add: fs1_def)
    from Cons.IH[OF l1, of "Suc i"] obtain out fs' where
      "applyFilterLoop fs1 t (Suc i) pts = (Inr out, fs')" "length out = length pts"
      "length fs' = length fs1"
      by blast
    with False Cons.prems show ?thesis
      by (simp add: fs1_def Let_def case_prod_beta)
  qed
qed

lemma process_valid_frame:
  assumes "33 \<le> length lms" "33 \<le> length (filters eng)"
  shows "\<exists>fs eng'. process eng (Some lms) t = (Inr (Some fs), eng') \<and> length fs = 24"
proof -
  from applyFilterLoop_ok[OF assms(2), of t 0 lms] obtain out fs' where
    a: "applyFilterLoop (filters eng) t 0 lms = (Inr out, fs')" "length out = length lms"
    by blast
  have l: "33 \<le> length out" using a assms by simp
  obtain c where c: "calculateCOG out = Inr c"
    using l by (simp add: calculateCOG_def Let_def case_prod_beta)
  obtain np nc where n: "normalizePose out c = Inr (np, nc)" "length np = length out"
    using l by (auto simp: normalizePose_def Let_def rotatedPose_def translatedPose_def)
  obtain f where f: "extractFeaturesV3 np nc = Inr f" "length f = 24"
    using l n by (auto simp: extractFeaturesV3_def Let_def)
  show ?thesis using assms a c n f
    by (simp add: process_def applyFilter_def)
qed

text \<open>
  Claim C8. For a frame whose landmark list is missing or has fewer than 33 points,
  \<open>process\<close> returns no result (\<open>null\<close>, never a partial feature vector), and the
  engine, which holds the filter state of every landmark, is the one it was before the
  call.
\<close>

theorem process_rejects_short_frame:
  "landmarks = None \<or> (\<exists>lms. landmarks = Some lms \<and> length lms < 33) \<Longrightarrow>
   process eng landmarks t = (Inr None, eng)"
  by (auto simp: process_def)

theorem process_rejects_short_frame_witness:
  "length (replicate 32 \<lparr>x = 1, y = 2, z = 3, visibility = Some 1, v = None\<rparr>) < 33 \<and>
   process new_NormalizationEngine
     (Some (replicate 32 \<lparr>x = 1, y = 2, z = 3, visibility = Some 1, v = None\<rparr>)) (Some 0)
     = (Inr None, new_NormalizationEngine)"
  using process_rejects_short_frame
    [of "Some (replicate 32 \<lparr>x = 1, y = 2, z = 3, visibility = Some 1, v = None\<rparr>)"
        new_NormalizationEngine "Some 0"]
  by simp

lemma isFinite_Fin: "isFinite a \<Longrightarrow> a = Fin (re a)"
  by (cases a) simp_all

lemma finitePoint_coords:
  "finitePoint p \<Longrightarrow> x p = Fin (re (x p)) \<and> y p = Fin (re (y p)) \<and> z p = Fin (re (z p))"
  by (simp add: finitePoint_def isFinite_Fin[symmetric])

lemma NE_getDistance_finite:
  assumes "finitePoint p" "finitePoint q"
  shows "NE_getDistance p q =
         Fin (sqrt ((re (x p) - re (x q)) ^ 2 + (re (y p) - re (y q)) ^ 2 + (re (z p) - re (z q)) ^ 2))"
proof -
  obtain a b c where p: "x p = Fin a" "y p = Fin b" "z p = Fin c"
    using finitePoint_coords[OF assms(1)] by blast
  obtain d e f where q: "x q = Fin d" "y q = Fin e" "z q = Fin f"
    using finitePoint_coords[OF assms(2)] by blast
  have "\<not> (a - d) * (a - d) + (b - e) * (b - e) + (c - f) * (c - f) < 0"
    by (simp add: not_less add_nonneg_nonneg)
  then show ?thesis
    by (simp add: NE_getDistance_def Math_pow2_def minus_jsnum_def p q power2_eq_square)
qed

text \<open>
  Claim C1. For a valid normalized pose (33 points or more, of finite coordinates) and
  any centroid, \<open>extractFeaturesV3\<close> returns exactly 24 numbers in the fixed layout:
  indices 0 to 17 are the \<open>x\<close>, \<open>y\<close>, \<open>z\<close> of the landmarks 19, 20, 31, 32, 25 and 26 in
  this order; index 18 is the constant 0; index 19 is the \<open>atan2\<close> of the \<open>(z, x)\<close>
  components of the vector from landmark 12 to landmark 11, in degrees; indices 20 and
  21 are the centroid's \<open>x\<close> and \<open>z\<close>; indices 22 and 23 are the Euclidean distances
  from landmark 0 to the landmarks 19 and 20.
\<close>

theorem extractFeaturesV3_layout:
  assumes len: "33 \<le> length ps" and fin: "\<forall>p\<in>set ps. finitePoint p"
  shows "extractFeaturesV3 ps cog =
     Inr [x (ps ! 19), y (ps ! 19), z (ps ! 19),
          x (ps ! 20), y (ps ! 20), z (ps ! 20),
          x (ps ! 31), y (ps ! 31), z (ps ! 31),
          x (ps ! 32), y (ps ! 32), z (ps ! 32),
          x (ps ! 25), y (ps ! 25), z (ps ! 25),
          x (ps ! 26), y (ps ! 26), z (ps ! 26),
          Fin 0,
          Fin (atan2 (re (z (ps ! 11)) - re (z (ps ! 12))) (re (x (ps ! 11)) - re (x (ps ! 12)))
               * (180 / pi)),
          x cog, z cog,
          Fin (sqrt ((re (x (ps ! 0)) - re (x (ps ! 19))) ^ 2
                   + (re (y (ps ! 0)) - re (y (ps ! 19))) ^ 2
                   + (re (z (ps ! 0)) - re (z (ps ! 19))) ^ 2)),
          Fin (sqrt ((re (x (ps ! 0)) - re (x (ps ! 20))) ^ 2
                   + (re (y (ps ! 0)) - re (y (ps ! 20))) ^ 2
                   + (re (z (ps ! 0)) - re (z (ps ! 20))) ^ 2))]"
proof -
  have f: "finitePoint (ps ! i)" if "i < 33" for i
    using fin len that by simp
  have d1: "NE_getDistance (ps ! 0) (ps ! 19) = Fin (sqrt ((re (x (ps ! 0)) - re (x (ps ! 19))) ^ 2
                   + (re (y (ps ! 0)) - re (y (ps ! 19))) ^ 2
                   + (re (z (ps ! 0)) - re (z (ps ! 19))) ^ 2))"
    by (rule NE_getDistance_finite) (simp_all add: f)
  have d2: "NE_getDistance (ps ! 0) (ps ! 20) = Fin (sqrt ((re (x (ps ! 0)) - re (x (ps ! 20))) ^ 2
                   + (re (y (ps ! 0)) - re (y (ps ! 20))) ^ 2
                   + (re (z (ps ! 0)) - re (z (ps ! 20))) ^ 2))"
    by (rule NE_getDistance_finite) (simp_all add: f)
  obtain a c where p11: "x (ps ! 11) = Fin a" "z (ps ! 11) = Fin c"
    using finitePoint_coords[OF f[of 11]] by auto
  obtain a' c' where p12: "x (ps ! 12) = Fin a'" "z (ps ! 12) = Fin c'"
    using finitePoint_coords[OF f[of 12]] by auto
  have ang: "Math_atan2 (z (ps ! 11) - z (ps ! 12)) (x (ps ! 11) - x (ps ! 12)) * Fin (180 / pi)
     = Fin (atan2 (re (z (ps ! 11)) - re (z (ps ! 12))) (re (x (ps ! 11)) - re (x (ps ! 12)))
               * (180 / pi))"
    by (simp add: p11 p12 minus_jsnum_def)
  show ?thesis
    using len by (simp add: extractFeaturesV3_def Let_def d1 d2 ang)
qed

theorem extractFeaturesV3_layout_witness:
  "list_all finitePoint
     (map (\<lambda>i. \<lparr>x = Fin (real i), y = Fin 0, z = Fin 0, visibility = None\<rparr>) [0..<33]) \<and>
   (\<exists>fs. extractFeaturesV3
            (map (\<lambda>i. \<lparr>x = Fin (real i), y = Fin 0, z = Fin 0, visibility = None\<rparr>) [0..<33])
            origin = Inr fs
      \<and> length fs = 24 \<and> fs ! 0 = Fin 19 \<and> fs ! 3 = Fin 20 \<and> fs ! 18 = Fin 0
      \<and> fs ! 22 = Fin 19 \<and> fs ! 23 = Fin 20)"
  using extractFeaturesV3_layout
    [of "map (\<lambda>i. \<lparr>x = Fin (real i), y = Fin 0, z = Fin 0, visibility = None\<rparr>) [0..<33]" origin]
  by (auto simp: finitePoint_def list_all_iff)









lemma NE_getMidPoint_finite:
  assumes "finitePoint p" "finitePoint q"
  shows "NE_getMidPoint p q = \<lparr>x = Fin ((re (x p) + re (x q)) / 2), y = Fin ((re (y p) + re (y q)) / 2),
           z = Fin ((re (z p) + re (z q)) / 2)\<rparr>"
proof -
  obtain a b c where p: "x p = Fin a" "y p = Fin b" "z p = Fin c"
    using finitePoint_coords[OF assms(1)] by blast
  obtain d e f where q: "x q = Fin d" "y q = Fin e" "z q = Fin f"
    using finitePoint_coords[OF assms(2)] by blast
  show ?thesis by (simp add: NE_getMidPoint_def p q)
qed






section \<open>Properties of the recorder\<close>

subsection \<open>mirrorPose\<close>

lemma mirrorIndex_lt: "i < 33 \<Longrightarrow> mirrorIndex i < 33"
  by (simp add: mirrorIndex_def swapPairs_def)

lemma mirrorIndex_invol: "mirrorIndex (mirrorIndex i) = i"
  by (simp add: mirrorIndex_def swapPairs_def)

lemma swapPair_inrange:
  "l < length a \<Longrightarrow> r < length a \<Longrightarrow> swapPair (l, r) a = a[l := a ! r, r := a ! l]"
  by (simp add: swapPair_def js_get_def js_set_def Let_def)

lemma fold_swapPairs_nth:
  assumes "length a = 33" "i < 33"
  shows "fold swapPair swapPairs a ! i = a ! mirrorIndex i"
  using assms
  by (simp add: swapPairs_def swapPair_inrange nth_list_update mirrorIndex_def)

lemma fold_swapPairs_length:
  assumes "length a = 33"
  shows "length (fold swapPair swapPairs a) = 33"
  using assms
  by (simp add: swapPairs_def swapPair_inrange)

text \<open>
  Claim C7. Stance mirroring is an involution: for every pose of 33 landmarks,
  \<open>mirrorPose\<close> (negate the \<open>x\<close> of every landmark, then swap the fixed pairs of left
  and right indices) applied twice returns the pose it started from. The equality is
  exact.
\<close>

theorem mirrorPose_involution:
  assumes len: "length ps = 33"
  shows "\<exists>m. mirrorPose (map Some ps) = Inr m \<and> mirrorPose m = Inr (map Some ps)"
proof -
  define neg :: "real landmark option \<Rightarrow> real landmark option"
    where "neg = map_option (\<lambda>pt. pt\<lparr>x := x pt * (- 1)\<rparr>)"
  define a where "a = map neg (map Some ps)"
  define m where "m = fold swapPair swapPairs a"
  have la: "length a = 33" using len by (simp add: a_def)
  have lm: "length m = 33" unfolding m_def by (rule fold_swapPairs_length[OF la])
  have a_nth: "a ! i = Some ((ps ! i)\<lparr>x := x (ps ! i) * (- 1)\<rparr>)" if "i < 33" for i
    using that len by (simp add: a_def neg_def)
  have m_nth: "m ! i = a ! mirrorIndex i" if "i < 33" for i
    unfolding m_def by (rule fold_swapPairs_nth[OF la that])
  have first: "mirrorPose (map Some ps) = Inr m"
    by (auto simp: mirrorPose_def m_def a_def neg_def)
  have noNone: "None \<notin> set m"
  proof
    assume "None \<in> set m"
    then obtain i where i: "i < 33" "m ! i = None"
      using lm by (auto simp: in_set_conv_nth)
    then show False
      using m_nth[OF i(1)] a_nth[OF mirrorIndex_lt[OF i(1)]] by simp
  qed
  let ?b = "map neg m"
  have lb: "length ?b = 33" using lm by simp
  have restored: "fold swapPair swapPairs ?b = map Some ps"
  proof (rule nth_equalityI)
    show "length (fold swapPair swapPairs ?b) = length (map Some ps)"
      using fold_swapPairs_length[OF lb] len by simp
  next
    fix i assume "i < length (fold swapPair swapPairs ?b)"
    then have i: "i < 33" using fold_swapPairs_length[OF lb] by simp
    have j: "mirrorIndex i < 33" by (rule mirrorIndex_lt[OF i])
    have "fold swapPair swapPairs ?b ! i = ?b ! mirrorIndex i"
      by (rule fold_swapPairs_nth[OF lb i])
    also have "\<dots> = neg (m ! mirrorIndex i)" using j lm by simp
    also have "\<dots> = neg (a ! i)" using m_nth[OF j] by (simp add: mirrorIndex_invol)
    also have "\<dots> = Some (ps ! i)" using a_nth[OF i] by (simp add: neg_def)
    finally show "fold swapPair swapPairs ?b ! i = map Some ps ! i" using i len by simp
  qed
  have second: "mirrorPose m = Inr (map Some ps)"
    using noNone restored by (simp add: mirrorPose_def neg_def)
  show ?thesis using first second by blast
qed

theorem mirrorPose_involution_witness:
  "length (map (\<lambda>i. \<lparr>x = real i, y = 1, z = 2, visibility = Some 1, v = None\<rparr>) [0..<33]) = 33 \<and>
   (\<exists>m. mirrorPose (map Some (map (\<lambda>i. \<lparr>x = real i, y = 1, z = 2, visibility = Some 1, v = None\<rparr>) [0..<33])) = Inr m
     \<and> map_option x (m ! 11) = Some (- 12)
     \<and> mirrorPose m = Inr (map Some (map (\<lambda>i. \<lparr>x = real i, y = 1, z = 2, visibility = Some 1, v = None\<rparr>) [0..<33])))"
proof -
  let ?ps = "map (\<lambda>i. \<lparr>x = real i, y = 1, z = 2, visibility = Some 1, v = None\<rparr>) [0..<33]"
  have l: "length ?ps = 33" by simp
  from mirrorPose_involution[OF l] obtain m where
    m: "mirrorPose (map Some ?ps) = Inr m" "mirrorPose m = Inr (map Some ?ps)" by blast
  have "None \<notin> set (map Some ?ps)" by auto
  then have "m = fold swapPair swapPairs (map (map_option (\<lambda>pt. pt\<lparr>x := x pt * (- 1)\<rparr>)) (map Some ?ps))"
    using m(1) by (simp add: mirrorPose_def)
  then have "m ! 11 = (map (map_option (\<lambda>pt. pt\<lparr>x := x pt * (- 1)\<rparr>)) (map Some ?ps)) ! mirrorIndex 11"
    by (simp add: fold_swapPairs_nth)
  then have "map_option x (m ! 11) = Some (- 12)"
    by (simp add: mirrorIndex_def swapPairs_def)
  then show ?thesis using m l by blast
qed

subsection \<open>resampleTimeSeries\<close>

lemma resampleLoop_map:
  "(\<forall>i\<in>set ks. resampleFrame data step i = Inr (g i)) \<Longrightarrow>
   resampleLoop data step ks acc = Inr (acc @ map g ks)"
  by (induction ks arbitrary: acc) simp_all

lemma resampleFrame_interp:
  assumes len: "2 \<le> length data" and N: "2 \<le> N" and i: "i < N"
    and shape: "\<forall>f\<in>set data. length f = d"
  defines "pos \<equiv> real i * ((real (length data) - 1) / (real N - 1))"
  shows "resampleFrame data (Fin ((real (length data) - 1) / (real N - 1))) i =
         Inr (map2 (\<lambda>a b. a + (b - a) * Fin (pos - real (nat \<lfloor>pos\<rfloor>)))
                (data ! nat \<lfloor>pos\<rfloor>) (data ! min (nat \<lceil>pos\<rceil>) (length data - 1)))"
proof -
  have N1: "0 < real N - 1" using N by simp
  have L1: "0 \<le> real (length data) - 1" using len by simp
  have pos0: "0 \<le> pos" unfolding pos_def using N1 L1 by simp
  have "real i \<le> real N - 1" using i by linarith
  then have "real i * ((real (length data) - 1) / (real N - 1)) \<le> (real N - 1) * ((real (length data) - 1) / (real N - 1))"
    using N1 L1 by (intro mult_right_mono) simp_all
  then have posle: "pos \<le> real (length data) - 1" unfolding pos_def using N1 by simp
  have fl0: "0 \<le> \<lfloor>pos\<rfloor>" using pos0 by simp
  have "\<lfloor>pos\<rfloor> \<le> \<lfloor>real (length data) - 1\<rfloor>" using posle by (rule floor_mono)
  also have "\<dots> = int (length data) - 1" by linarith
  finally have flle: "\<lfloor>pos\<rfloor> \<le> int (length data) - 1" .
  have lo: "nat \<lfloor>pos\<rfloor> < length data" using flle fl0 by linarith
  have ce0: "0 \<le> \<lceil>pos\<rceil>" using pos0 by (simp add: order_trans[OF _ le_of_int_ceiling])
  define hi where "hi = min (nat \<lceil>pos\<rceil>) (length data - 1)"
  have hi: "hi < length data" using len by (simp add: hi_def)
  have "\<lceil>pos\<rceil> \<le> \<lceil>real (length data) - 1\<rceil>" using posle by (rule ceiling_mono)
  also have "\<dots> = int (length data) - 1" by linarith
  finally have cele: "\<lceil>pos\<rceil> \<le> int (length data) - 1" .
  have hic: "hi = nat \<lceil>pos\<rceil>"
    using cele ce0 len by (simp add: hi_def min_def nat_le_iff of_nat_diff)
  have mn: "min (real_of_int \<lceil>pos\<rceil>) (real (length data) - 1) = real hi"
  proof -
    have "real_of_int \<lceil>pos\<rceil> \<le> real (length data) - 1" using cele by linarith
    then show ?thesis using ce0 by (simp add: hic min_def)
  qed
  have oi: "Fin (real i) * Fin ((real (length data) - 1) / (real N - 1)) = Fin pos"
    by (simp add: pos_def)
  have rl: "real_of_int \<lfloor>pos\<rfloor> = real (nat \<lfloor>pos\<rfloor>)" using fl0 by simp
  have fl: "Math_floor (Fin pos) = Fin (real (nat \<lfloor>pos\<rfloor>))" by (simp add: rl)
  have ch: "Math_min (Math_ceil (Fin pos)) (Fin (real (length data) - 1)) = Fin (real hi)"
    by (simp add: mn)
  have ratio: "Fin pos - Fin (real (nat \<lfloor>pos\<rfloor>)) = Fin (pos - real (nat \<lfloor>pos\<rfloor>))"
    by (simp add: minus_jsnum_def)
  have il: "js_index data (Fin (real (nat \<lfloor>pos\<rfloor>))) = Some (data ! nat \<lfloor>pos\<rfloor>)"
    using lo pos0 by simp
  have ih: "js_index data (Fin (real hi)) = Some (data ! hi)"
    using hi by simp
  have lens: "length (data ! nat \<lfloor>pos\<rfloor>) = d" "length (data ! hi) = d"
    using shape lo hi by simp_all
  have body: "map (\<lambda>(val, idx). val + ((if idx < length (data ! hi) then data ! hi ! idx else NaN) - val) * Fin (pos - real (nat \<lfloor>pos\<rfloor>)))
                 (zip (data ! nat \<lfloor>pos\<rfloor>) [0..<length (data ! nat \<lfloor>pos\<rfloor>)])
        = map2 (\<lambda>a b. a + (b - a) * Fin (pos - real (nat \<lfloor>pos\<rfloor>))) (data ! nat \<lfloor>pos\<rfloor>) (data ! hi)"
    by (rule nth_equalityI) (simp_all add: lens)
  have "resampleFrame data (Fin ((real (length data) - 1) / (real N - 1))) i =
        (if data ! nat \<lfloor>pos\<rfloor> = [] then Inr []
         else Inr (map2 (\<lambda>a b. a + (b - a) * Fin (pos - real (nat \<lfloor>pos\<rfloor>)))
                (data ! nat \<lfloor>pos\<rfloor>) (data ! hi)))"
    unfolding resampleFrame_def Let_def oi fl ch ratio il ih option.case body ..
  then show ?thesis
    unfolding hi_def by (cases "data ! nat \<lfloor>pos\<rfloor> = []") simp_all
qed

lemma resample_refines:
  assumes N: "N \<noteq> 1 \<or> length data \<le> 1" and shape: "\<forall>f\<in>set data. length f = d"
  shows "resampleTimeSeries data N = Inr (spec_resample data N)"
proof (cases "length data \<le> 1")
  case True
  then show ?thesis
    by (cases data) (simp_all add: resampleTimeSeries_def spec_resample_def)
next
  case False
  then have len: "2 \<le> length data" by simp
  have ne: "data \<noteq> []" "length data \<noteq> 0" "length data \<noteq> 1" using len by auto
  show ?thesis
  proof (cases "N = 0")
    case True
    then show ?thesis using ne by (simp add: resampleTimeSeries_def spec_resample_def)
  next
    case N0: False
    then have N2: "2 \<le> N" using N False by simp
    have N1: "real N - 1 \<noteq> 0" using N2 by simp
    have step: "Fin (real (length data) - 1) / Fin (real N - 1)
                = Fin ((real (length data) - 1) / (real N - 1))"
      using N1 by simp
    define g where "g = (\<lambda>i. (let pos = real i * ((real (length data) - 1) / (real N - 1));
                  lo = nat \<lfloor>pos\<rfloor>;
                  hi = min (nat \<lceil>pos\<rceil>) (length data - 1);
                  w = pos - real lo
              in map2 (\<lambda>a b. a + (b - a) * Fin w) (data ! lo) (data ! hi)))"
    have "resampleFrame data (Fin ((real (length data) - 1) / (real N - 1))) i = Inr (g i)"
      if "i \<in> set [0..<N]" for i
    proof -
      have "i < N" using that by simp
      then show ?thesis
        unfolding g_def Let_def by (rule resampleFrame_interp[OF len N2 _ shape])
    qed
    then have "\<forall>i\<in>set [0..<N]. resampleFrame data (Fin ((real (length data) - 1) / (real N - 1))) i
            = Inr (g i)"
      by blast
    then have loop: "resampleLoop data (Fin ((real (length data) - 1) / (real N - 1))) [0..<N] []
               = Inr ([] @ map g [0..<N])"
      by (rule resampleLoop_map)
    have code: "resampleTimeSeries data N
                = resampleLoop data (Fin ((real (length data) - 1) / (real N - 1))) [0..<N] []"
      unfolding resampleTimeSeries_def Let_def step using ne by simp
    have spec: "spec_resample data N = map g [0..<N]"
      unfolding spec_resample_def g_def using ne by simp
    show ?thesis unfolding code loop spec by simp
  qed
qed

lemma spec_resample_length: "data \<noteq> [] \<Longrightarrow> length (spec_resample data N) = N"
  by (simp add: spec_resample_def)

text \<open>
  Claim C5, as amended. For every sequence of numeric vectors of one length and every
  target length \<open>N\<close>, other than \<open>N = 1\<close> on an input of two or more elements,
  \<open>resampleTimeSeries\<close> returns what the specification describes: the empty output for
  the empty input (whatever \<open>N\<close> is), \<open>N\<close> copies of the element of a single-element
  input, and otherwise exactly \<open>N\<close> elements, each the linear interpolation, component
  by component, at one of \<open>N\<close> equally spaced positions over the index range of the
  input, between the two bracketing elements, the upper index not beyond the last one.
\<close>

theorem resampleTimeSeries_refines_spec:
  assumes "N \<noteq> 1 \<or> length data \<le> 1" and "\<forall>f\<in>set data. length f = d"
  shows "resampleTimeSeries data N = Inr (spec_resample data N)
         \<and> (data \<noteq> [] \<longrightarrow> length (spec_resample data N) = N)
         \<and> (data = [] \<longrightarrow> spec_resample data N = [])
         \<and> (\<forall>f. data = [f] \<longrightarrow> spec_resample data N = replicate N f)"
  using resample_refines[OF assms] by (simp add: spec_resample_def)

theorem resampleTimeSeries_refines_spec_witness:
  "resampleTimeSeries [[Fin 0, Fin 4], [Fin 2, Fin 0]] 3
     = Inr [[Fin 0, Fin 4], [Fin 1, Fin 2], [Fin 2, Fin 0]]"
  using resampleTimeSeries_refines_spec[of 3 "[[Fin 0, Fin 4], [Fin 2, Fin 0]]" 2]
  by (simp add: spec_resample_def Let_def upt_rec minus_jsnum_def)

text \<open>
  The claim as it was stated, exactly \<open>N\<close> elements for every input and every \<open>N\<close>,
  fails twice: with \<open>N = 1\<close> and two input elements the step is a division by zero,
  the position is \<open>NaN\<close> and the read of the frame raises; and the empty input gives
  the empty output also when \<open>N\<close> is 3.
\<close>

theorem resampleTimeSeries_length_counterexample:
  "\<not> (\<exists>ys. resampleTimeSeries [[Fin 0], [Fin 1]] 1 = Inr ys \<and> length ys = 1) \<and>
   \<not> (\<exists>ys. resampleTimeSeries [] 3 = Inr ys \<and> length ys = 3)"
  by (simp add: resampleTimeSeries_def resampleFrame_def Let_def)

lemma lerp_same: "isFinite c \<Longrightarrow> c + (c - c) * Fin 0 = c"
  by (cases c) (simp_all add: minus_jsnum_def)

lemma resampleFrame_unit_step:
  assumes i: "i < length data" and fin: "\<forall>c\<in>set (data ! i). isFinite c"
  shows "resampleFrame data (Fin 1) i = Inr (data ! i)"
proof -
  have oi: "Fin (real i) * Fin 1 = Fin (real i)" by simp
  have fl: "Math_floor (Fin (real i)) = Fin (real i)" by simp
  have "min (real i) (real (length data) - 1) = real i" using i by (simp add: min_def) 
  then have ch: "Math_min (Math_ceil (Fin (real i))) (Fin (real (length data) - 1)) = Fin (real i)"
    by simp
  have ratio: "Fin (real i) - Fin (real i) = Fin 0" by (simp add: minus_jsnum_def)
  have il: "js_index data (Fin (real i)) = Some (data ! i)" using i by simp
  have body: "map (\<lambda>(val, idx). val + ((if idx < length (data ! i) then data ! i ! idx else NaN) - val) * Fin 0)
                 (zip (data ! i) [0..<length (data ! i)]) = data ! i"
    using fin by (intro nth_equalityI) (simp_all add: lerp_same)
  have "resampleFrame data (Fin 1) i = (if data ! i = [] then Inr [] else Inr (data ! i))"
    unfolding resampleFrame_def Let_def oi fl ch ratio il option.case body ..
  then show ?thesis by (cases "data ! i = []") simp_all
qed

text \<open>
  Claim C6. Resampling is stable at its own length: for a sequence of \<open>N \<ge> 2\<close> vectors
  of finite numbers, \<open>resampleTimeSeries\<close> to \<open>N\<close> returns the sequence itself (the
  step is exactly 1, so every weight is 0).
\<close>

theorem resampleTimeSeries_stable:
  assumes len: "length data = N" and N: "2 \<le> N"
    and fin: "\<forall>f\<in>set data. \<forall>c\<in>set f. isFinite c"
  shows "resampleTimeSeries data N = Inr data"
proof -
  have ne: "length data \<noteq> 0" "length data \<noteq> 1" using len N by auto
  have step: "Fin (real (length data) - 1) / Fin (real N - 1) = Fin 1"
    using len N by simp
  have "\<forall>i\<in>set [0..<N]. resampleFrame data (Fin 1) i = Inr (data ! i)"
  proof
    fix i assume "i \<in> set [0..<N]"
    then have i: "i < length data" using len by simp
    then have "data ! i \<in> set data" by simp
    then have "\<forall>c\<in>set (data ! i). isFinite c" using fin by blast
    with i show "resampleFrame data (Fin 1) i = Inr (data ! i)"
      by (rule resampleFrame_unit_step)
  qed
  then have loop: "resampleLoop data (Fin 1) [0..<N] [] = Inr ([] @ map (\<lambda>i. data ! i) [0..<N])"
    by (rule resampleLoop_map)
  have same: "map (\<lambda>i. data ! i) [0..<N] = data"
    using map_nth[of data] len by simp
  have code: "resampleTimeSeries data N = resampleLoop data (Fin 1) [0..<N] []"
    unfolding resampleTimeSeries_def Let_def step using ne by simp
  show ?thesis unfolding code loop same by simp
qed

theorem resampleTimeSeries_stable_witness:
  "list_all (list_all isFinite) [[Fin 1, Fin 2], [Fin 3, Fin 5], [Fin 0, Fin 0]] \<and>
   resampleTimeSeries [[Fin 1, Fin 2], [Fin 3, Fin 5], [Fin 0, Fin 0]] 3
     = Inr [[Fin 1, Fin 2], [Fin 3, Fin 5], [Fin 0, Fin 0]]"
  using resampleTimeSeries_stable[of "[[Fin 1, Fin 2], [Fin 3, Fin 5], [Fin 0, Fin 0]]" 3]
  by simp

subsection \<open>calculateMetrics\<close>



lemma binadeFrom_eq:
  "- 1022 \<le> k \<Longrightarrow> k \<le> int n - 1022 \<Longrightarrow> 2 powi k \<le> a \<Longrightarrow> a < 2 powi (k + 1)
   \<Longrightarrow> binadeFrom a n = k"
proof (induction n)
  case 0
  then show ?case by simp
next
  case (Suc n)
  show ?case
  proof (cases "k = int (Suc n) - 1022")
    case True
    then show ?thesis using Suc.prems(3) by simp
  next
    case False
    then have k: "k \<le> int n - 1022" using Suc.prems(2) by simp
    then have "k + 1 \<le> int (Suc n) - 1022" by simp
    then have "(2::real) powi (k + 1) \<le> 2 powi (int (Suc n) - 1022)"
      by (intro power_int_increasing) simp_all
    then have "\<not> 2 powi (int (Suc n) - 1022) \<le> a" using Suc.prems(4) by linarith
    then show ?thesis using Suc.IH[OF Suc.prems(1) k Suc.prems(3,4)] by simp
  qed
qed

lemma toDouble_zero: "toDouble 0 = 0"
  by (simp add: toDouble_def roundEven_def)


lemma toDouble_unit_binade:
  assumes "1 \<le> a" "a < 2"
  shows "toDouble a = of_int (roundEven (a * 2 ^ 52)) / 2 ^ 52"
proof -
  have "binadeFrom a 2045 = 0" using assms by (intro binadeFrom_eq) simp_all
  moreover have "\<bar>a\<bar> = a" using assms by simp
  ultimately have e: "binade a = 0" by (simp add: binade_def)
  have u: "(2::real) powi (0 - 52) = 1 / 2 ^ 52"
    by (simp add: power_int_minus_divide)
  have "toDouble a = of_int (roundEven (a / (1 / 2 ^ 52))) * (1 / 2 ^ 52)"
    unfolding toDouble_def Let_def e u by simp
  then show ?thesis by simp
qed

lemma toDouble_1005: "toDouble (1005 / 1000) = 4526117625507348 / 4503599627370496"
  by (simp add: toDouble_unit_binade roundEven_def Let_def)

lemma toDouble_1015: "toDouble (1015 / 1000) = 4571153621781053 / 4503599627370496"
  by (simp add: toDouble_unit_binade roundEven_def Let_def)

lemma toFixed2_examples:
  "toFixed2 (1005 / 1000) = 1" "toFixed2 (1015 / 1000) = 101 / 100"
  unfolding toFixed2_def Let_def toDouble_1005 toDouble_1015 by simp_all

lemma limbDist_nonneg: "0 \<le> limbDist fr pid"
  by (simp add: limbDist_def Let_def)

lemma zip_upt_map: "zip xs [0..<length xs] = map (\<lambda>i. (xs ! i, i)) [0..<length xs]"
  by (rule nth_equalityI) simp_all

lemma scanPart_fold:
  "scanPart history pid
     = fold (\<lambda>i. scanFrame pid (history ! i, i)) [0..<length history] (0, 0)"
  by (simp add: scanPart_def zip_upt_map fold_map comp_def)

lemma scan_prefix_inv:
  "scanInv history pid k (fold (\<lambda>i. scanFrame pid (history ! i, i)) [0..<k] (0, 0))"
proof (induction k)
  case 0
  show ?case by (simp add: scanInv_def)
next
  case (Suc k)
  obtain M a where acc: "fold (\<lambda>i. scanFrame pid (history ! i, i)) [0..<k] (0, 0) = (M, a)"
    by (cases "fold (\<lambda>i. scanFrame pid (history ! i, i)) [0..<k] (0, 0)") 
  from Suc.IH have I: "0 \<le> M" "\<forall>j<k. limbDist (history ! j) pid \<le> M"
    "0 < M \<Longrightarrow> a < k \<and> limbDist (history ! a) pid = M \<and> (\<forall>j<a. limbDist (history ! j) pid < M)"
    "\<not> 0 < M \<Longrightarrow> a = 0"
    by (simp_all add: scanInv_def acc)
  show ?case
  proof (cases "limbDist (history ! k) pid > M")
    case True
    then have new: "scanFrame pid (history ! k, k) (M, a) = (limbDist (history ! k) pid, k)"
      by (simp add: scanFrame_def)
    have "\<forall>j<Suc k. limbDist (history ! j) pid \<le> limbDist (history ! k) pid"
      using I(2) True by (auto simp: less_Suc_eq)
    moreover have "\<forall>j<k. limbDist (history ! j) pid < limbDist (history ! k) pid"
      using I(2) True by force
    ultimately show ?thesis using True I(1) by (simp add: acc new scanInv_def)
  next
    case False
    then have same: "scanFrame pid (history ! k, k) (M, a) = (M, a)"
      by (simp add: scanFrame_def)
    have "\<forall>j<Suc k. limbDist (history ! j) pid \<le> M"
      using I(2) False by (auto simp: less_Suc_eq)
    then show ?thesis using I by (auto simp: acc same scanInv_def)
  qed
qed

lemma scanPart_inv: "scanInv history pid (length history) (scanPart history pid)"
  unfolding scanPart_fold by (rule scan_prefix_inv)

lemma Max_insert2:
  fixes a b :: real
  shows "finite S \<Longrightarrow> Max (insert a (insert b S)) = Max (insert (max a b) S)"
  by (cases "S = {}") (simp_all add: max.assoc)

lemma speedLoop_max:
  assumes "\<forall>i\<in>set ks. i < length history \<and> pid < length (pose (history ! i))
             \<and> pid < length (pose (history ! (i - 1)))"
  shows "speedLoop history pid scale ks m0 =
         Inr (Max (insert m0 (pairSpeed history pid scale `
                {i \<in> set ks. 0 < frameDt history i \<and> pairSpeed history pid scale i < 25})))"
  using assms
proof (induction ks arbitrary: m0)
  case Nil
  show ?case by simp
next
  case (Cons i rest)
  let ?S = "\<lambda>ks. pairSpeed history pid scale `
                {i \<in> set ks. 0 < frameDt history i \<and> pairSpeed history pid scale i < 25}"
  have fin: "finite (?S rest)" by simp
  have ok: "i < length history" "pid < length (pose (history ! i))"
    "pid < length (pose (history ! (i - 1)))"
    using Cons.prems by simp_all
  have IH: "speedLoop history pid scale rest m = Inr (Max (insert m (?S rest)))" for m
    using Cons.IH Cons.prems by simp
  show ?case
  proof (cases "frameDt history i \<le> 0")
    case True
    then have "?S (i # rest) = ?S rest" by auto
    then show ?thesis using True ok IH by simp
  next
    case dt: False
    show ?thesis
    proof (cases "pairSpeed history pid scale i < 25")
      case False
      then have "?S (i # rest) = ?S rest" by auto
      then show ?thesis using False dt ok IH by (simp add: Let_def)
    next
      case True
      then have S: "?S (i # rest) = insert (pairSpeed history pid scale i) (?S rest)"
        using dt by auto
      show ?thesis
      proof (cases "pairSpeed history pid scale i > m0")
        case gt: True
        have "Max (insert m0 (insert (pairSpeed history pid scale i) (?S rest)))
              = Max (insert (pairSpeed history pid scale i) (?S rest))"
          using gt by (simp only: Max_insert2[OF fin] max.absorb2[OF less_imp_le[OF gt]])
        then show ?thesis using True gt dt ok IH S by (simp add: Let_def)
      next
        case le: False
        have "Max (insert m0 (insert (pairSpeed history pid scale i) (?S rest)))
              = Max (insert m0 (?S rest))"
          using le by (simp only: Max_insert2[OF fin]) (simp add: max.absorb1)
        then show ?thesis using True le dt ok IH S by (simp add: Let_def)
      qed
    qed
  qed
qed

lemma calculateMaxSpeedInRange_max:
  assumes e: "e < length history" and valid: "\<forall>fr\<in>set history. pid < length (pose fr)"
  shows "calculateMaxSpeedInRange history s e pid scale
         = Inr (toFixed2 (Max (insert 0 (phaseSamples history pid scale s e))))"
proof (cases "e \<le> s")
  case True
  then have "phaseSamples history pid scale s e = {}" by (auto simp: phaseSamples_def)
  then show ?thesis using True
    by (simp add: calculateMaxSpeedInRange_def toFixed2_def toDouble_zero)
next
  case False
  have r: "\<forall>i\<in>set [s + 1 ..< e + 1]. i < length history \<and> pid < length (pose (history ! i))
             \<and> pid < length (pose (history ! (i - 1)))"
    using e valid by auto
  have set_eq: "{i \<in> set [s + 1 ..< e + 1]. 0 < frameDt history i \<and> pairSpeed history pid scale i < 25}
     = {i. s < i \<and> i \<le> e \<and> 0 < frameDt history i \<and> pairSpeed history pid scale i < 25}"
    by auto
  show ?thesis
    using False
    by (simp only: calculateMaxSpeedInRange_def speedLoop_max[OF r] set_eq phaseSamples_def
          if_False sum.case)
qed

lemma selectPart_range:
  assumes "0 < length history" "part_id pt < 33"
    and "selectPart history pt (ext, pid, name, apex) = (ext', pid', name', apex')"
    and "0 \<le> ext" "pid < 33" "apex < length history"
  shows "0 \<le> ext' \<and> pid' < 33 \<and> apex' < length history"
proof -
  obtain M a where sc: "scanPart history (part_id pt) = (M, a)"
    by (cases "scanPart history (part_id pt)")
  have inv: "0 < M \<Longrightarrow> a < length history"
    using scanPart_inv[of history "part_id pt"] by (simp add: sc scanInv_def)
  show ?thesis
  proof (cases "M > ext")
    case True
    then have "0 < M" using assms(4) by simp
    then show ?thesis using assms True inv by (simp add: selectPart_def sc)
  next
    case False
    then show ?thesis using assms by (simp add: selectPart_def sc)
  qed
qed

lemma activePart_range:
  assumes n: "0 < length history" and ap: "activePart history = (ext, pid, name, apex)"
  shows "pid < 33 \<and> apex < length history"
proof -
  have step: "\<And>pts acc. \<forall>pt\<in>set pts. part_id pt < 33 \<Longrightarrow>
      (case acc of (e, i, nm, a) \<Rightarrow> 0 \<le> e \<and> i < 33 \<and> a < length history) \<Longrightarrow>
      (case fold (selectPart history) pts acc of (e, i, nm, a) \<Rightarrow> 0 \<le> e \<and> i < 33 \<and> a < length history)"
  proof -
    fix pts :: "part list" and acc :: "real \<times> nat \<times> string \<times> nat"
    show "\<forall>pt\<in>set pts. part_id pt < 33 \<Longrightarrow>
      (case acc of (e, i, nm, a) \<Rightarrow> 0 \<le> e \<and> i < 33 \<and> a < length history) \<Longrightarrow>
      (case fold (selectPart history) pts acc of (e, i, nm, a) \<Rightarrow> 0 \<le> e \<and> i < 33 \<and> a < length history)"
    proof (induction pts arbitrary: acc)
      case Nil
      then show ?case by simp
    next
      case (Cons pt pts)
      obtain e i nm a where acc: "acc = (e, i, nm, a)" by (cases acc)
      obtain e' i' nm' a' where nxt: "selectPart history pt (e, i, nm, a) = (e', i', nm', a')"
        by (cases "selectPart history pt (e, i, nm, a)")
      have "0 \<le> e' \<and> i' < 33 \<and> a' < length history"
        using selectPart_range[OF n _ nxt] Cons.prems by (simp add: acc)
      then show ?case using Cons.IH[of "(e', i', nm', a')"] Cons.prems(1) by (simp add: acc nxt)
    qed
  qed
  have "case fold (selectPart history) parts (0, 20, ''right_hand'', 0) of
          (e, i, nm, a) \<Rightarrow> 0 \<le> e \<and> i < 33 \<and> a < length history"
    using n by (intro step) (auto simp: parts_def)
  then show ?thesis using ap by (simp add: activePart_def)
qed

lemma calculateMetrics_char:
  assumes len: "5 \<le> length history" and valid: "\<forall>fr\<in>set history. 33 \<le> length (pose fr)"
    and ap: "activePart history = (ext, pid, name, apex)"
  shows "calculateMetrics history heightCm =
     Inr (Some \<lparr>duration_sec = toFixed2 ((time (history ! (length history - 1)) - time (history ! 0)) / 1000),
                active_part = name,
                max_speed_outbound =
                  toFixed2 (Max (insert 0 (phaseSamples history pid (heightCm / 175) 0 apex))),
                max_speed_return =
                  toFixed2 (Max (insert 0 (phaseSamples history pid (heightCm / 175) apex
                                             (length history - 1)))),
                apex_frame = apex\<rparr>)"
proof -
  have n: "0 < length history" using len by linarith
  have r: "pid < 33" "apex < length history" using activePart_range[OF n ap] by simp_all
  have v: "\<forall>fr\<in>set history. pid < length (pose fr)" using valid r(1) by fastforce
  have nv: "\<not> list_ex (\<lambda>fr. length (pose fr) < 33) history"
    using valid by (auto simp: list_ex_iff)
  have last: "length history - 1 < length history" using n by simp
  note so = calculateMaxSpeedInRange_max[OF r(2) v, of 0 "heightCm / 175"]
  note sr = calculateMaxSpeedInRange_max[OF last v, of apex "heightCm / 175"]
  show ?thesis
    using len nv so sr
    by (simp add: calculateMetrics_def ap Let_def)
qed

lemma activePart_dominant:
  assumes p: "p \<in> set parts" and sc: "scanPart history (part_id p) = (Mp, ap)" and pos: "0 < Mp"
    and dom: "\<forall>q\<in>set parts. q \<noteq> p \<longrightarrow> fst (scanPart history (part_id q)) < Mp"
  shows "activePart history = (Mp, part_id p, part_name p, ap)"
proof -
  obtain M19 a19 where s19: "scanPart history 19 = (M19, a19)" by (cases "scanPart history 19")
  obtain M20 a20 where s20: "scanPart history 20 = (M20, a20)" by (cases "scanPart history 20")
  obtain M31 a31 where s31: "scanPart history 31 = (M31, a31)" by (cases "scanPart history 31")
  obtain M32 a32 where s32: "scanPart history 32 = (M32, a32)" by (cases "scanPart history 32")
  from p consider "p = \<lparr>part_id = 19, part_name = ''left_hand''\<rparr>"
    | "p = \<lparr>part_id = 20, part_name = ''right_hand''\<rparr>"
    | "p = \<lparr>part_id = 31, part_name = ''left_foot''\<rparr>"
    | "p = \<lparr>part_id = 32, part_name = ''right_foot''\<rparr>"
    by (auto simp: parts_def)
  then show ?thesis
  proof cases
    case 1
    then show ?thesis using sc pos dom
      by (simp add: activePart_def parts_def selectPart_def s19 s20 s31 s32)
  next
    case 2
    then show ?thesis using sc pos dom
      by (simp add: activePart_def parts_def selectPart_def s19 s20 s31 s32)
  next
    case 3
    then show ?thesis using sc pos dom
      by (simp add: activePart_def parts_def selectPart_def s19 s20 s31 s32)
  next
    case 4
    then show ?thesis using sc pos dom
      by (simp add: activePart_def parts_def selectPart_def s19 s20 s31 s32)
  qed
qed

lemma scanPart_zero:
  assumes zero: "\<forall>fr\<in>set history. limbDist fr pid \<le> 0"
  shows "scanPart history pid = (0, 0)"
proof -
  obtain M a where sc: "scanPart history pid = (M, a)" by (cases "scanPart history pid")
  have inv: "0 \<le> M" "0 < M \<Longrightarrow> a < length history \<and> limbDist (history ! a) pid = M"
    "\<not> 0 < M \<Longrightarrow> a = 0"
    using scanPart_inv[of history pid] by (simp_all add: sc scanInv_def)
  have "\<not> 0 < M"
  proof
    assume "0 < M"
    then have am: "a < length history" "limbDist (history ! a) pid = M" using inv(2) by simp_all
    have "history ! a \<in> set history" using am(1) by simp
    then have "limbDist (history ! a) pid \<le> 0" using zero by blast
    then show False using \<open>0 < M\<close> am(2) by simp
  qed
  then show ?thesis using inv sc by simp
qed

lemma dist_first_max:
  fixes d :: "nat \<Rightarrow> real"
  assumes up: "\<forall>j<k. d j < d (Suc j)"
    and down: "\<forall>j. k \<le> j \<and> Suc j < n \<longrightarrow> d (Suc j) \<le> d j"
  shows "(\<forall>j<k. d j < d k) \<and> (\<forall>j<n. d j \<le> d k)"
proof -
  have a: "j \<le> k \<Longrightarrow> i < j \<Longrightarrow> d i < d j" for i j
  proof (induction j)
    case 0
    then show ?case by simp
  next
    case (Suc j)
    have s: "d j < d (Suc j)" using up Suc.prems by simp
    show ?case
    proof (cases "i = j")
      case True
      then show ?thesis using s by simp
    next
      case False
      then have "d i < d j" using Suc by simp
      then show ?thesis using s by simp
    qed
  qed
  have b: "k \<le> j \<Longrightarrow> j < n \<Longrightarrow> d j \<le> d k" for j
  proof (induction j)
    case 0
    then show ?case by simp
  next
    case (Suc j)
    show ?case
    proof (cases "k = Suc j")
      case True
      then show ?thesis by simp
    next
      case False
      then have kj: "k \<le> j" using Suc.prems by simp
      then have "d (Suc j) \<le> d j" using down Suc.prems by simp
      moreover have "d j \<le> d k" using Suc.IH kj Suc.prems by simp
      ultimately show ?thesis by simp
    qed
  qed
  have "d j \<le> d k" if "j < n" for j
  proof (cases "j < k")
    case True
    then show ?thesis using a[of k j] by simp
  next
    case False
    then show ?thesis using b[of j] that by simp
  qed
  then show ?thesis using a[of k] by simp
qed






text \<open>The example windows, evaluated.\<close>

lemma footPose_nth:
  "i < 33 \<Longrightarrow> footPose c ! i = \<lparr>x = (if i = 31 then c else 0), y = 0, z = 0, visibility = None, v = None\<rparr>"
  by (simp add: footPose_def)

lemma length_footPose: "length (footPose c) = 33"
  by (simp add: footPose_def)

lemma limbDist_footPose:
  "pid < 33 \<Longrightarrow> limbDist \<lparr>time = t, pose = footPose c\<rparr> pid = (if pid = 31 then \<bar>c\<bar> else 0)"
  by (simp add: limbDist_def getMidPoint_def footPose_nth Let_def)

lemma stillWindow_valid: "length stillWindow = 5" "\<forall>fr\<in>set stillWindow. 33 \<le> length (pose fr)"
  by (auto simp: stillWindow_def length_footPose)

lemma kickPose_nth:
  "i < 33 \<Longrightarrow> kickPose c ! i
     = \<lparr>x = (if i = 23 then 4 else if i = 24 then - 4 else if i = 20 then - 1 else 0),
        y = 0, z = (if i = 31 then c else 0), visibility = None, v = None\<rparr>"
  by (simp add: kickPose_def)

lemma length_kickPose: "length (kickPose c) = 33"
  by (simp add: kickPose_def)

lemma limbDist_kickPose:
  "pid \<in> {19, 20, 31, 32} \<Longrightarrow>
   limbDist \<lparr>time = t, pose = kickPose c\<rparr> pid
     = (if pid = 31 then \<bar>c\<bar> else if pid = 20 then 1 else 0)"
  by (auto simp add: limbDist_def getMidPoint_def kickPose_nth Let_def)

lemma kickWindow_nth:
  "j < 5 \<Longrightarrow> kickWindow ! j
     = \<lparr>time = 2000 * real j,
        pose = kickPose (if j \<le> 2 then real j * (1005 / 1000) else real (4 - j) * (1005 / 1000))\<rparr>"
  by (simp add: kickWindow_def)

lemma kickWindow_valid: "length kickWindow = 5" "\<forall>fr\<in>set kickWindow. 33 \<le> length (pose fr)"
  by (auto simp: kickWindow_def length_kickPose)

lemma limbDist_kick:
  "j < 5 \<Longrightarrow> pid \<in> {19, 20, 31, 32} \<Longrightarrow> limbDist (kickWindow ! j) pid
     = (if pid = 31 then (if j \<le> 2 then real j * (1005 / 1000) else real (4 - j) * (1005 / 1000))
        else if pid = 20 then 1 else 0)"
  by (simp only: kickWindow_nth limbDist_kickPose) auto







lemma active_part_by_scan:
  assumes len: "5 \<le> length history" and valid: "\<forall>fr\<in>set history. 33 \<le> length (pose fr)"
    and p: "p \<in> set parts" and i: "i < length history"
    and dom: "\<forall>q\<in>set parts. q \<noteq> p \<longrightarrow>
                (\<forall>j<length history. limbDist (history ! j) (part_id q)
                                       < limbDist (history ! i) (part_id p))"
  shows "\<exists>m. calculateMetrics history heightCm = Inr (Some m) \<and> active_part m = part_name p
           \<and> apex_frame m < length history
           \<and> (\<forall>j<length history. limbDist (history ! j) (part_id p)
                                    \<le> limbDist (history ! apex_frame m) (part_id p))
           \<and> (\<forall>j<apex_frame m. limbDist (history ! j) (part_id p)
                                    < limbDist (history ! apex_frame m) (part_id p))
           \<and> (\<forall>k<length history.
                 (\<forall>j<k. limbDist (history ! j) (part_id p) < limbDist (history ! Suc j) (part_id p)) \<and>
                 (\<forall>j. k \<le> j \<and> Suc j < length history \<longrightarrow>
                        limbDist (history ! Suc j) (part_id p) \<le> limbDist (history ! j) (part_id p))
                 \<longrightarrow> apex_frame m = k)"
proof -
  let ?d = "\<lambda>j. limbDist (history ! j) (part_id p)"
  have n: "0 < length history" using len by linarith
  obtain Mp ap where sc: "scanPart history (part_id p) = (Mp, ap)"
    by (cases "scanPart history (part_id p)")
  have inv: "\<forall>j<length history. ?d j \<le> Mp"
    "0 < Mp \<Longrightarrow> ap < length history \<and> ?d ap = Mp \<and> (\<forall>j<ap. ?d j < Mp)"
    using scanPart_inv[of history "part_id p"] by (simp_all add: sc scanInv_def)
  obtain q where q: "q \<in> set parts" "q \<noteq> p"
  proof (cases "p = \<lparr>part_id = 19, part_name = ''left_hand''\<rparr>")
    case True
    then show ?thesis using that[of "\<lparr>part_id = 20, part_name = ''right_hand''\<rparr>"]
      by (simp add: parts_def)
  next
    case False
    then show ?thesis using that[of "\<lparr>part_id = 19, part_name = ''left_hand''\<rparr>"]
      by (simp add: parts_def)
  qed
  have "0 \<le> limbDist (history ! 0) (part_id q)" by (rule limbDist_nonneg)
  also have "\<dots> < ?d i" using dom q n by simp
  also have "\<dots> \<le> Mp" using inv(1) i by simp
  finally have pos: "0 < Mp" .
  have peak: "ap < length history" "?d ap = Mp" "\<forall>j<ap. ?d j < Mp"
    using inv(2)[OF pos] by simp_all
  have others: "\<forall>q\<in>set parts. q \<noteq> p \<longrightarrow> fst (scanPart history (part_id q)) < Mp"
  proof (intro ballI impI)
    fix q assume q: "q \<in> set parts" "q \<noteq> p"
    obtain Mq aq where sq: "scanPart history (part_id q) = (Mq, aq)"
      by (cases "scanPart history (part_id q)")
    have iq: "0 < Mq \<Longrightarrow> aq < length history \<and> limbDist (history ! aq) (part_id q) = Mq"
      using scanPart_inv[of history "part_id q"] by (simp add: sq scanInv_def)
    have "Mq < Mp"
    proof (cases "0 < Mq")
      case True
      then have "Mq < ?d i" using iq dom q by force
      then show ?thesis using inv(1) i by force
    next
      case False
      then show ?thesis using pos by simp
    qed
    then show "fst (scanPart history (part_id q)) < Mp" by (simp add: sq)
  qed
  have act: "activePart history = (Mp, part_id p, part_name p, ap)"
    by (rule activePart_dominant[OF p sc pos others])
  have mono: "ap = k"
    if k: "k < length history"
      and up: "\<forall>j<k. ?d j < ?d (Suc j)"
      and down: "\<forall>j. k \<le> j \<and> Suc j < length history \<longrightarrow> ?d (Suc j) \<le> ?d j"
    for k
  proof -
    from dist_first_max[of k ?d "length history", OF up down]
    have f: "\<forall>j<k. ?d j < ?d k" "\<forall>j<length history. ?d j \<le> ?d k" by simp_all
    have "?d k \<le> Mp" using inv(1) k by simp
    moreover have "Mp \<le> ?d k" using f(2) peak(1,2) by force
    ultimately have e: "?d k = Mp" by simp
    show ?thesis
    proof (rule ccontr)
      assume "ap \<noteq> k"
      then consider "ap < k" | "k < ap" by linarith
      then show False
      proof cases
        case 1
        then have "?d ap < ?d k" using f(1) by simp
        then show False using e peak(2) by simp
      next
        case 2
        then have "?d k < Mp" using peak(3) by simp
        then show False using e by simp
      qed
    qed
  qed
  show ?thesis
    using peak inv(1) mono
    by (simp add: calculateMetrics_char[OF len valid act])
qed




text \<open>
  Claim C3. For a window of at least 5 frames, when one of the four candidates
  (left hand 19, right hand 20, left foot 31, right foot 32) is at some frame farther
  from the hip midpoint, the average of the hip landmarks 23 and 24 of that frame, than
  every other candidate is at any frame, metrics are returned, \<open>active_part\<close> is the
  name of that candidate, and \<open>apex_frame\<close> is the first frame at which its distance
  from the hip midpoint is largest; in particular, if that distance rises strictly up
  to frame \<open>k\<close> and never rises afterwards, \<open>apex_frame\<close> is \<open>k\<close>.
\<close>

theorem calculateMetrics_active_part:
  assumes len: "5 \<le> length history" and valid: "\<forall>fr\<in>set history. 33 \<le> length (pose fr)"
    and cand: "(pid, name) \<in> {(19, ''left_hand''), (20, ''right_hand''), (31, ''left_foot''),
                                (32, ''right_foot'')}"
    and i: "i < length history"
    and dom: "\<forall>q\<in>{19, 20, 31, 32}. q \<noteq> pid \<longrightarrow>
                (\<forall>j<length history. spec_hipDistance (history ! j) q
                                       < spec_hipDistance (history ! i) pid)"
  shows "\<exists>m. calculateMetrics history heightCm = Inr (Some m) \<and> active_part m = name
           \<and> apex_frame m < length history
           \<and> (\<forall>j<length history. spec_hipDistance (history ! j) pid
                                    \<le> spec_hipDistance (history ! apex_frame m) pid)
           \<and> (\<forall>j<apex_frame m. spec_hipDistance (history ! j) pid
                                    < spec_hipDistance (history ! apex_frame m) pid)
           \<and> (\<forall>k<length history.
                 (\<forall>j<k. spec_hipDistance (history ! j) pid < spec_hipDistance (history ! Suc j) pid) \<and>
                 (\<forall>j. k \<le> j \<and> Suc j < length history \<longrightarrow>
                        spec_hipDistance (history ! Suc j) pid \<le> spec_hipDistance (history ! j) pid)
                 \<longrightarrow> apex_frame m = k)"
proof -
  have sp: "limbDist fr q = spec_hipDistance fr q" for fr q
    by (simp add: limbDist_def getMidPoint_def spec_hipDistance_def Let_def)
  define p where "p = \<lparr>part_id = pid, part_name = name\<rparr>"
  have p: "p \<in> set parts" using cand by (auto simp: p_def parts_def)
  have ids: "part_id p = pid" "part_name p = name" by (simp_all add: p_def)
  have dom': "\<forall>q\<in>set parts. q \<noteq> p \<longrightarrow>
                (\<forall>j<length history. limbDist (history ! j) (part_id q)
                                       < limbDist (history ! i) (part_id p))"
  proof (intro ballI impI)
    fix q assume q: "q \<in> set parts" "q \<noteq> p"
    have "part_id q \<in> {19, 20, 31, 32}" using q(1) by (auto simp: parts_def)
    moreover have "part_id q \<noteq> pid" using q cand by (auto simp: parts_def p_def)
    ultimately show "\<forall>j<length history. limbDist (history ! j) (part_id q)
                                       < limbDist (history ! i) (part_id p)"
      using dom by (auto simp add: sp ids)
  qed
  show ?thesis
    using active_part_by_scan[OF len valid p i dom', of heightCm]
    by (simp only: sp ids)
qed

theorem calculateMetrics_active_part_witness:
  "\<exists>m. calculateMetrics kickWindow 350 = Inr (Some m) \<and> active_part m = ''left_foot''
       \<and> apex_frame m = 2"
proof -
  have len: "5 \<le> length kickWindow" by (simp add: kickWindow_valid)
  have cand: "(31, ''left_foot'') \<in> {(19, ''left_hand''), (20, ''right_hand''), (31, ''left_foot''),
                                (32, ''right_foot'')}" by simp
  have i: "2 < length kickWindow" by (simp add: kickWindow_valid)
  have sd: "spec_hipDistance (kickWindow ! j) pid
     = (if pid = 31 then (if j \<le> 2 then real j * (1005 / 1000) else real (4 - j) * (1005 / 1000))
        else if pid = 20 then 1 else 0)" if "j < 5" "pid \<in> {19, 20, 31, 32}" for j pid
    using that by (auto simp add: spec_hipDistance_def kickWindow_nth kickPose_nth)
  have dom: "\<forall>q\<in>{19, 20, 31, 32}. q \<noteq> 31 \<longrightarrow>
                (\<forall>j<length kickWindow. spec_hipDistance (kickWindow ! j) q
                                       < spec_hipDistance (kickWindow ! 2) 31)"
    by (simp add: kickWindow_valid sd)
  from calculateMetrics_active_part[OF len kickWindow_valid(2) cand i dom, of 350] obtain m where
    m: "calculateMetrics kickWindow 350 = Inr (Some m)" "active_part m = ''left_foot''"
    and k: "\<forall>k<length kickWindow.
                 (\<forall>j<k. spec_hipDistance (kickWindow ! j) 31 < spec_hipDistance (kickWindow ! Suc j) 31) \<and>
                 (\<forall>j. k \<le> j \<and> Suc j < length kickWindow \<longrightarrow>
                        spec_hipDistance (kickWindow ! Suc j) 31 \<le> spec_hipDistance (kickWindow ! j) 31)
                 \<longrightarrow> apex_frame m = k"
    by auto
  have up: "\<forall>j<2. spec_hipDistance (kickWindow ! j) 31 < spec_hipDistance (kickWindow ! Suc j) 31"
    by (simp add: sd)
  have down: "\<forall>j. 2 \<le> j \<and> Suc j < length kickWindow \<longrightarrow>
                        spec_hipDistance (kickWindow ! Suc j) 31 \<le> spec_hipDistance (kickWindow ! j) 31"
    by (auto simp: sd kickWindow_valid)
  have "apex_frame m = 2" using k i up down by blast
  then show ?thesis using m by blast
qed

text \<open>
  Claim C10. For a window of at least 5 frames in which no candidate limb is ever at a
  positive distance from the hip midpoint of its frame, \<open>calculateMetrics\<close> still
  succeeds and reports the defaults: \<open>active_part\<close> is \<open>right_hand\<close> and \<open>apex_frame\<close>
  is 0.
\<close>

theorem calculateMetrics_defaults:
  assumes len: "5 \<le> length history" and valid: "\<forall>fr\<in>set history. 33 \<le> length (pose fr)"
    and zero: "\<forall>fr\<in>set history. \<forall>q\<in>set parts. limbDist fr (part_id q) \<le> 0"
  shows "\<exists>m. calculateMetrics history heightCm = Inr (Some m)
           \<and> active_part m = ''right_hand'' \<and> apex_frame m = 0"
proof -
  have z: "scanPart history pid = (0, 0)" if "pid \<in> {19, 20, 31, 32}" for pid
  proof (rule scanPart_zero)
    show "\<forall>fr\<in>set history. limbDist fr pid \<le> 0"
      using zero that by (auto simp: parts_def)
  qed
  have ap: "activePart history = (0, 20, ''right_hand'', 0)"
    by (simp add: activePart_def parts_def selectPart_def z)
  show ?thesis
    by (simp add: calculateMetrics_char[OF len valid ap])
qed

theorem calculateMetrics_defaults_witness:
  "\<exists>m. calculateMetrics stillWindow 175 = Inr (Some m) \<and> active_part m = ''right_hand''
       \<and> apex_frame m = 0"
proof -
  have len: "5 \<le> length stillWindow" by (simp add: stillWindow_valid)
  have zero: "\<forall>fr\<in>set stillWindow. \<forall>q\<in>set parts. limbDist fr (part_id q) \<le> 0"
    by (auto simp: stillWindow_def parts_def limbDist_footPose)
  show ?thesis by (rule calculateMetrics_defaults[OF len stillWindow_valid(2) zero])
qed



end
